theory Spec2Isabelle
  imports Main "HOL-Library.Word"
begin

section \<open>The linked stack of DynStack.c\<close>

text \<open>
  The stack of \<^verbatim>\<open>DynStack.c\<close> is a heap-allocated \<^verbatim>\<open>DynStack\<close> struct whose \<^verbatim>\<open>top\<close>
  field heads a singly linked chain of heap-allocated \<^verbatim>\<open>DynFrame\<close> structs. The model
  keeps that shape: pointers are values, the two kinds of struct live in two typed
  heaps, and every function takes the memory and returns the memory it leaves.

  \<^item> A pointer is \<open>NULL\<close> or the address of a block. Reading through \<open>NULL\<close>, or
    through an address that holds no block of the right type, is the error \<open>SegFault\<close>.
  \<^item> \<^verbatim>\<open>malloc\<close> and \<^verbatim>\<open>realloc\<close> belong to the C library, not to this program:
    each function that calls them receives, as its first arguments, the pointers those
    calls returned (\<open>NULL\<close> when the allocation failed).
  \<^item> An element is a \<^verbatim>\<open>void *\<close>, so it is a pointer too; what it points to belongs
    to the caller and is the component \<open>world\<close> of the memory. The caller's functions
    (\<^verbatim>\<open>deleteData\<close>, the function given to \<^verbatim>\<open>dynstackMap\<close>) change the world and
    leave the structs of the stack alone; \<^verbatim>\<open>printData\<close> reads the world.
  \<^item> A \<^verbatim>\<open>char *\<close> result is \<open>None\<close> for \<^verbatim>\<open>NULL\<close> and \<open>Some\<close> of the characters
    before the terminator otherwise. The contents of a character buffer are a value, so
    \<^verbatim>\<open>strlen\<close> is \<open>length\<close> and \<^verbatim>\<open>strcat\<close> is \<open>@\<close>; of the pointer that
    \<^verbatim>\<open>malloc\<close> or \<^verbatim>\<open>realloc\<close> returned for the buffer, only whether it is \<open>NULL\<close>
    matters, and writing through it when it is \<open>NULL\<close> is the error \<open>SegFault\<close>. The
    byte count \<^verbatim>\<open>length\<close> of \<^verbatim>\<open>dynstackToString\<close> has no counterpart.
  \<^item> \<^verbatim>\<open>unsigned int\<close> is a 32-bit word, its width on the usual platforms:
    \<^verbatim>\<open>(stack->size)++\<close> and \<^verbatim>\<open>(stack->size)--\<close> wrap around. Addresses are not
    bounded.
\<close>

subsection \<open>Data\<close>

datatype ptr = NULL | Ptr nat

datatype error = SegFault

text \<open>
  \<^verbatim>\<open>typedef struct dynamicStackFrame { void *data; struct dynamicStackFrame *next; } DynFrame;\<close>
  The fields are named \<open>frame_data\<close> and \<open>frame_next\<close>.
\<close>

record DynFrame =
  frame_data :: ptr
  frame_next :: ptr

text \<open>
  \<^verbatim>\<open>typedef struct dynamicStack { DynFrame *top; unsigned int size;
     void (*deleteData)(void *); char *(*printData)(void *); } DynStack;\<close>
  The fields \<^verbatim>\<open>top\<close> and \<^verbatim>\<open>size\<close> are named \<open>stack_top\<close> and \<open>stack_size\<close>.
\<close>

record 'w DynStack =
  stack_top :: ptr
  stack_size :: "32 word"
  deleteData :: "ptr \<Rightarrow> 'w \<Rightarrow> 'w"
  printData :: "ptr \<Rightarrow> 'w \<Rightarrow> string"

record 'w memory =
  stacks :: "nat \<rightharpoonup> 'w DynStack"
  frames :: "nat \<rightharpoonup> DynFrame"
  world :: 'w

subsection \<open>Construction\<close>

definition dynstackNew ::
  "ptr \<Rightarrow> (ptr \<Rightarrow> 'w \<Rightarrow> 'w) option \<Rightarrow> (ptr \<Rightarrow> 'w \<Rightarrow> string) option \<Rightarrow> 'w memory
     \<Rightarrow> ptr \<times> 'w memory" where
  "dynstackNew m deleteFunc printFunc \<sigma> =
     (case deleteFunc of
        None \<Rightarrow> (NULL, \<sigma>)
      | Some del \<Rightarrow>
          (case printFunc of
             None \<Rightarrow> (NULL, \<sigma>)
           | Some prt \<Rightarrow>
               (case m of
                  NULL \<Rightarrow> (NULL, \<sigma>)
                | Ptr a \<Rightarrow>
                    (Ptr a,
                     \<sigma>\<lparr>stacks := (stacks \<sigma>)(a \<mapsto>
                          \<lparr>stack_top = NULL, stack_size = 0,
                           deleteData = del, printData = prt\<rparr>)\<rparr>))))"

definition dynstackFrameNew :: "ptr \<Rightarrow> ptr \<Rightarrow> 'w memory \<Rightarrow> ptr \<times> 'w memory" where
  "dynstackFrameNew m data \<sigma> =
     (case m of
        NULL \<Rightarrow> (NULL, \<sigma>)
      | Ptr a \<Rightarrow>
          (Ptr a, \<sigma>\<lparr>frames := (frames \<sigma>)(a \<mapsto> \<lparr>frame_data = data, frame_next = NULL\<rparr>)\<rparr>))"

subsection \<open>Push, peek, pop, size\<close>

definition dynstackPush :: "ptr \<Rightarrow> ptr \<Rightarrow> ptr \<Rightarrow> 'w memory \<Rightarrow> error + bool \<times> 'w memory" where
  "dynstackPush m stack data \<sigma> =
     (case stack of
        NULL \<Rightarrow> Inr (False, \<sigma>)
      | Ptr sa \<Rightarrow>
          (case dynstackFrameNew m data \<sigma> of
             (NULL, \<sigma>1) \<Rightarrow> Inr (False, \<sigma>1)
           | (Ptr fa, \<sigma>1) \<Rightarrow>
               (case stacks \<sigma>1 sa of
                  None \<Rightarrow> Inl SegFault
                | Some s \<Rightarrow>
                    (case frames \<sigma>1 fa of
                       None \<Rightarrow> Inl SegFault
                     | Some toPush \<Rightarrow>
                         Inr (True,
                              \<sigma>1\<lparr>frames := (frames \<sigma>1)(fa \<mapsto> toPush\<lparr>frame_next := stack_top s\<rparr>),
                                 stacks := (stacks \<sigma>1)(sa \<mapsto>
                                   s\<lparr>stack_top := Ptr fa,
                                     stack_size := stack_size s + 1\<rparr>)\<rparr>)))))"

definition dynstackPeek :: "ptr \<Rightarrow> 'w memory \<Rightarrow> error + ptr" where
  "dynstackPeek stack \<sigma> =
     (case stack of
        NULL \<Rightarrow> Inr NULL
      | Ptr sa \<Rightarrow>
          (case stacks \<sigma> sa of
             None \<Rightarrow> Inl SegFault
           | Some s \<Rightarrow>
               (case stack_top s of
                  NULL \<Rightarrow> Inr NULL
                | Ptr fa \<Rightarrow>
                    (case frames \<sigma> fa of
                       None \<Rightarrow> Inl SegFault
                     | Some top' \<Rightarrow> Inr (frame_data top')))))"

definition dynstackPop :: "ptr \<Rightarrow> 'w memory \<Rightarrow> error + ptr \<times> 'w memory" where
  "dynstackPop stack \<sigma> =
     (case stack of
        NULL \<Rightarrow> Inr (NULL, \<sigma>)
      | Ptr sa \<Rightarrow>
          (case stacks \<sigma> sa of
             None \<Rightarrow> Inl SegFault
           | Some s \<Rightarrow>
               (case stack_top s of
                  NULL \<Rightarrow> Inr (NULL, \<sigma>)
                | Ptr fa \<Rightarrow>
                    (case frames \<sigma> fa of
                       None \<Rightarrow> Inl SegFault
                     | Some top' \<Rightarrow>
                         Inr (frame_data top',
                              \<sigma>\<lparr>stacks := (stacks \<sigma>)(sa \<mapsto>
                                   s\<lparr>stack_top := frame_next top',
                                     stack_size := stack_size s - 1\<rparr>),
                                frames := (frames \<sigma>)(fa := None)\<rparr>)))))"

definition dynstackGetSize :: "ptr \<Rightarrow> 'w memory \<Rightarrow> error + 32 word" where
  "dynstackGetSize stack \<sigma> =
     (case stack of
        NULL \<Rightarrow> Inr 0
      | Ptr sa \<Rightarrow>
          (case stacks \<sigma> sa of
             None \<Rightarrow> Inl SegFault
           | Some s \<Rightarrow> Inr (stack_size s)))"

definition dynstackIsEmpty :: "ptr \<Rightarrow> 'w memory \<Rightarrow> error + bool" where
  "dynstackIsEmpty stack \<sigma> =
     (case dynstackGetSize stack \<sigma> of
        Inl e \<Rightarrow> Inl e
      | Inr n \<Rightarrow> Inr (n = 0))"

subsection \<open>Clearing\<close>

text \<open>
  The loop of \<^verbatim>\<open>dynstackClear\<close> runs while \<^verbatim>\<open>dynstackIsEmpty\<close> is false, and nothing
  in its text bounds it: with a nonzero \<^verbatim>\<open>size\<close> over an empty chain,
  \<^verbatim>\<open>dynstackPop\<close> returns \<^verbatim>\<open>NULL\<close> and changes nothing, for ever. The model is a
  partial function: \<open>None\<close> is that run. The body is
  \<^verbatim>\<open>stack->deleteData(dynstackPop(stack))\<close>: the struct is read for \<^verbatim>\<open>deleteData\<close>, and
  the function is called on what the pop returned.
\<close>

partial_function (option) dynstackClear_loop :: "ptr \<Rightarrow> 'w memory \<Rightarrow> (error + 'w memory) option"
  where
  "dynstackClear_loop stack \<sigma> =
     (case dynstackIsEmpty stack \<sigma> of
        Inl e \<Rightarrow> Some (Inl e)
      | Inr emp \<Rightarrow>
          if emp then Some (Inr \<sigma>)
          else
            (case dynstackPop stack \<sigma> of
               Inl e \<Rightarrow> Some (Inl e)
             | Inr (d, \<sigma>1) \<Rightarrow>
                 (case stack of
                    NULL \<Rightarrow> Some (Inl SegFault)
                  | Ptr sa \<Rightarrow>
                      (case stacks \<sigma>1 sa of
                         None \<Rightarrow> Some (Inl SegFault)
                       | Some s \<Rightarrow>
                           dynstackClear_loop stack
                             (\<sigma>1\<lparr>world := deleteData s d (world \<sigma>1)\<rparr>)))))"

definition dynstackClear :: "ptr \<Rightarrow> 'w memory \<Rightarrow> (error + 'w memory) option" where
  "dynstackClear stack \<sigma> =
     (case stack of
        NULL \<Rightarrow> Some (Inr \<sigma>)
      | Ptr sa \<Rightarrow> dynstackClear_loop stack \<sigma>)"

text \<open>\<^verbatim>\<open>dynstackFree\<close> clears the stack and frees the struct itself.\<close>

definition dynstackFree :: "ptr \<Rightarrow> 'w memory \<Rightarrow> (error + 'w memory) option" where
  "dynstackFree stack \<sigma> =
     (case stack of
        NULL \<Rightarrow> Some (Inr \<sigma>)
      | Ptr sa \<Rightarrow>
          (case dynstackClear stack \<sigma> of
             None \<Rightarrow> None
           | Some (Inl e) \<Rightarrow> Some (Inl e)
           | Some (Inr \<sigma>1) \<Rightarrow> Some (Inr (\<sigma>1\<lparr>stacks := (stacks \<sigma>1)(sa := None)\<rparr>))))"

subsection \<open>Rendering\<close>

text \<open>
  In the empty case \<^verbatim>\<open>dynstackTopToString\<close> allocates one byte and writes the
  terminator through the pointer without testing it: \<open>m\<close> is what that \<^verbatim>\<open>malloc\<close>
  returned.
\<close>

definition dynstackTopToString :: "ptr \<Rightarrow> ptr \<Rightarrow> 'w memory \<Rightarrow> error + string option" where
  "dynstackTopToString m stack \<sigma> =
     (case stack of
        NULL \<Rightarrow> Inr None
      | Ptr sa \<Rightarrow>
          (case dynstackIsEmpty stack \<sigma> of
             Inl e \<Rightarrow> Inl e
           | Inr emp \<Rightarrow>
               if emp
               then (case m of
                       NULL \<Rightarrow> Inl SegFault
                     | Ptr b \<Rightarrow> Inr (Some []))
               else
                 (case stacks \<sigma> sa of
                    None \<Rightarrow> Inl SegFault
                  | Some s \<Rightarrow>
                      (case stack_top s of
                         NULL \<Rightarrow> Inl SegFault
                       | Ptr fa \<Rightarrow>
                           (case frames \<sigma> fa of
                              None \<Rightarrow> Inl SegFault
                            | Some top' \<Rightarrow>
                                Inr (Some (printData s (frame_data top') (world \<sigma>))))))))"

text \<open>
  The loop of \<^verbatim>\<open>dynstackToString\<close> follows \<^verbatim>\<open>next\<close> until \<^verbatim>\<open>NULL\<close>; on a cyclic
  chain it does not end. Each turn renders the frame, grows the buffer with
  \<^verbatim>\<open>realloc\<close> and calls \<^verbatim>\<open>strcat\<close> on the pointer returned without testing it:
  \<open>rs 0\<close> is what the \<^verbatim>\<open>realloc\<close> of this turn returned, \<open>rs 1\<close> that of the next turn,
  and so on.
\<close>

partial_function (option) dynstackToString_loop ::
  "(nat \<Rightarrow> ptr) \<Rightarrow> ptr \<Rightarrow> ptr \<Rightarrow> string \<Rightarrow> 'w memory \<Rightarrow> (error + string) option" where
  "dynstackToString_loop rs stack cur toReturn \<sigma> =
     (case cur of
        NULL \<Rightarrow> Some (Inr toReturn)
      | Ptr ca \<Rightarrow>
          (case stack of
             NULL \<Rightarrow> Some (Inl SegFault)
           | Ptr sa \<Rightarrow>
               (case stacks \<sigma> sa of
                  None \<Rightarrow> Some (Inl SegFault)
                | Some s \<Rightarrow>
                    (case frames \<sigma> ca of
                       None \<Rightarrow> Some (Inl SegFault)
                     | Some f \<Rightarrow>
                         (case rs 0 of
                            NULL \<Rightarrow> Some (Inl SegFault)
                          | Ptr b \<Rightarrow>
                              dynstackToString_loop (\<lambda>i. rs (Suc i)) stack (frame_next f)
                                (toReturn @ [CHR 0x0A] @ printData s (frame_data f) (world \<sigma>))
                                \<sigma>)))))"

text \<open>
  \<open>dynstackToString m rs\<close>: \<open>m\<close> is what the \<^verbatim>\<open>malloc\<close> of \<^verbatim>\<open>dynstackTopToString\<close>
  returned, \<open>rs\<close> what the \<^verbatim>\<open>realloc\<close>s of the loop returned.
\<close>

definition dynstackToString ::
  "ptr \<Rightarrow> (nat \<Rightarrow> ptr) \<Rightarrow> ptr \<Rightarrow> 'w memory \<Rightarrow> (error + string option) option" where
  "dynstackToString m rs stack \<sigma> =
     (case stack of
        NULL \<Rightarrow> Some (Inr None)
      | Ptr sa \<Rightarrow>
          (case dynstackTopToString m stack \<sigma> of
             Inl e \<Rightarrow> Some (Inl e)
           | Inr None \<Rightarrow> Some (Inl SegFault)
           | Inr (Some toReturn) \<Rightarrow>
               (case dynstackIsEmpty stack \<sigma> of
                  Inl e \<Rightarrow> Some (Inl e)
                | Inr emp \<Rightarrow>
                    (case (if emp then Inr NULL
                           else (case stacks \<sigma> sa of
                                   None \<Rightarrow> Inl SegFault
                                 | Some s \<Rightarrow>
                                     (case stack_top s of
                                        NULL \<Rightarrow> Inl SegFault
                                      | Ptr fa \<Rightarrow>
                                          (case frames \<sigma> fa of
                                             None \<Rightarrow> Inl SegFault
                                           | Some top' \<Rightarrow> Inr (frame_next top'))))) of
                       Inl e \<Rightarrow> Some (Inl e)
                     | Inr cur \<Rightarrow>
                         (case dynstackToString_loop rs stack cur toReturn \<sigma> of
                            None \<Rightarrow> None
                          | Some (Inl e) \<Rightarrow> Some (Inl e)
                          | Some (Inr str) \<Rightarrow> Some (Inr (Some str)))))))"

subsection \<open>Traversal\<close>

text \<open>
  \<^verbatim>\<open>void dynstackMap(DynStack *stack, void (*func)(void *))\<close>: the loop calls
  \<^verbatim>\<open>func(cur->data)\<close>.
\<close>

partial_function (option) dynstackMap_loop ::
  "(ptr \<Rightarrow> 'w \<Rightarrow> 'w) \<Rightarrow> ptr \<Rightarrow> 'w memory \<Rightarrow> (error + 'w memory) option" where
  "dynstackMap_loop func cur \<sigma> =
     (case cur of
        NULL \<Rightarrow> Some (Inr \<sigma>)
      | Ptr ca \<Rightarrow>
          (case frames \<sigma> ca of
             None \<Rightarrow> Some (Inl SegFault)
           | Some f \<Rightarrow>
               dynstackMap_loop func (frame_next f)
                 (\<sigma>\<lparr>world := func (frame_data f) (world \<sigma>)\<rparr>)))"

definition dynstackMap :: "ptr \<Rightarrow> (ptr \<Rightarrow> 'w \<Rightarrow> 'w) \<Rightarrow> 'w memory \<Rightarrow> (error + 'w memory) option"
  where
  "dynstackMap stack func \<sigma> =
     (case stack of
        NULL \<Rightarrow> Some (Inr \<sigma>)
      | Ptr sa \<Rightarrow>
          (case dynstackIsEmpty stack \<sigma> of
             Inl e \<Rightarrow> Some (Inl e)
           | Inr emp \<Rightarrow>
               if emp then Some (Inr \<sigma>)
               else
                 (case stacks \<sigma> sa of
                    None \<Rightarrow> Some (Inl SegFault)
                  | Some s \<Rightarrow> dynstackMap_loop func (stack_top s) \<sigma>)))"

subsection \<open>What a stack holds\<close>

text \<open>
  \<open>chain h p ns\<close>: following \<^verbatim>\<open>next\<close> from \<open>p\<close> in the heap \<open>h\<close> visits exactly the
  frames \<open>ns\<close>, each given as its address and its \<^verbatim>\<open>data\<close>, and then reaches
  \<^verbatim>\<open>NULL\<close>. The frames reachable from \<^verbatim>\<open>top\<close> are \<open>ns\<close>, their number is
  \<open>length ns\<close>, and the elements from the top down are \<open>map snd ns\<close>.
\<close>

fun chain :: "(nat \<rightharpoonup> DynFrame) \<Rightarrow> ptr \<Rightarrow> (nat \<times> ptr) list \<Rightarrow> bool" where
  "chain h p [] = (p = NULL)"
| "chain h p ((a, d) # ns) =
     (p = Ptr a \<and>
      (case h a of
         None \<Rightarrow> False
       | Some f \<Rightarrow> frame_data f = d \<and> chain h (frame_next f) ns))"

text \<open>
  \<open>holds \<sigma> sa s ns\<close>: the block at \<open>sa\<close> is the struct \<open>s\<close>, the chain from its
  \<^verbatim>\<open>top\<close> is \<open>ns\<close>, and its \<^verbatim>\<open>size\<close> is the number of those frames as an
  \<^verbatim>\<open>unsigned int\<close>.
\<close>

definition holds :: "'w memory \<Rightarrow> nat \<Rightarrow> 'w DynStack \<Rightarrow> (nat \<times> ptr) list \<Rightarrow> bool" where
  "holds \<sigma> sa s ns =
     (stacks \<sigma> sa = Some s \<and> chain (frames \<sigma>) (stack_top s) ns \<and>
      stack_size s = of_nat (length ns))"

definition head_ptr :: "(nat \<times> ptr) list \<Rightarrow> ptr" where
  "head_ptr ns = (case ns of [] \<Rightarrow> NULL | (a, d) # ms \<Rightarrow> Ptr a)"

subsection \<open>Sequences of calls\<close>

text \<open>
  \<open>pushes\<close> pushes the elements of a list in order, each with the pointer its
  \<^verbatim>\<open>malloc\<close> returned, and collects the results; \<open>pops\<close> pops \<open>n\<close> times and collects
  the values returned. Both stop at the first fault.
\<close>

fun pushes :: "ptr \<Rightarrow> (ptr \<times> ptr) list \<Rightarrow> 'w memory \<Rightarrow> error + bool list \<times> 'w memory" where
  "pushes stack [] \<sigma> = Inr ([], \<sigma>)"
| "pushes stack ((m, e) # mes) \<sigma> =
     (case dynstackPush m stack e \<sigma> of
        Inl err \<Rightarrow> Inl err
      | Inr (ok, \<sigma>1) \<Rightarrow>
          (case pushes stack mes \<sigma>1 of
             Inl err \<Rightarrow> Inl err
           | Inr (oks, \<sigma>2) \<Rightarrow> Inr (ok # oks, \<sigma>2)))"

fun pops :: "ptr \<Rightarrow> nat \<Rightarrow> 'w memory \<Rightarrow> error + ptr list \<times> 'w memory" where
  "pops stack 0 \<sigma> = Inr ([], \<sigma>)"
| "pops stack (Suc n) \<sigma> =
     (case dynstackPop stack \<sigma> of
        Inl err \<Rightarrow> Inl err
      | Inr (d, \<sigma>1) \<Rightarrow>
          (case pops stack n \<sigma>1 of
             Inl err \<Rightarrow> Inl err
           | Inr (ds, \<sigma>2) \<Rightarrow> Inr (d # ds, \<sigma>2)))"

text \<open>The allocations of a run in which \<^verbatim>\<open>malloc\<close> succeeds: frame \<open>a\<close> for element \<open>e\<close>.\<close>

definition allocs :: "(nat \<times> ptr) list \<Rightarrow> (ptr \<times> ptr) list" where
  "allocs aes = map (\<lambda>(a, e). (Ptr a, e)) aes"

text \<open>\<open>numbered n\<close>: \<open>n\<close> pushes, of the element \<open>Ptr i\<close> into the frame \<open>i\<close>, for \<open>i < n\<close>.\<close>

definition numbered :: "nat \<Rightarrow> (nat \<times> ptr) list" where
  "numbered n = map (\<lambda>i. (i, Ptr i)) [0..<n]"

text \<open>
  The public operations as values, and a run of them on one stack. \<open>Push m e\<close> carries
  what its \<^verbatim>\<open>malloc\<close> returned. \<open>ToString\<close> is a call of \<^verbatim>\<open>dynstackToString\<close> whose
  allocations succeed: one whose allocation fails ends the program, and the run with
  it, and \<^verbatim>\<open>dynstackToString\<close> writes to no struct in either case. The values returned
  by the calls are dropped; the memory is kept.
\<close>

datatype 'w call =
    Push ptr ptr
  | Pop
  | Peek
  | GetSize
  | IsEmpty
  | Clear
  | ToString
  | Map_call "ptr \<Rightarrow> 'w \<Rightarrow> 'w"

fun do_call :: "ptr \<Rightarrow> 'w call \<Rightarrow> 'w memory \<Rightarrow> (error + 'w memory) option" where
  "do_call stack (Push m e) \<sigma> =
     (case dynstackPush m stack e \<sigma> of Inl err \<Rightarrow> Some (Inl err) | Inr (ok, \<sigma>1) \<Rightarrow> Some (Inr \<sigma>1))"
| "do_call stack Pop \<sigma> =
     (case dynstackPop stack \<sigma> of Inl err \<Rightarrow> Some (Inl err) | Inr (d, \<sigma>1) \<Rightarrow> Some (Inr \<sigma>1))"
| "do_call stack Peek \<sigma> =
     (case dynstackPeek stack \<sigma> of Inl err \<Rightarrow> Some (Inl err) | Inr d \<Rightarrow> Some (Inr \<sigma>))"
| "do_call stack GetSize \<sigma> =
     (case dynstackGetSize stack \<sigma> of Inl err \<Rightarrow> Some (Inl err) | Inr n \<Rightarrow> Some (Inr \<sigma>))"
| "do_call stack IsEmpty \<sigma> =
     (case dynstackIsEmpty stack \<sigma> of Inl err \<Rightarrow> Some (Inl err) | Inr b \<Rightarrow> Some (Inr \<sigma>))"
| "do_call stack Clear \<sigma> = dynstackClear stack \<sigma>"
| "do_call stack ToString \<sigma> =
     (case dynstackToString (Ptr 0) (\<lambda>i. Ptr 0) stack \<sigma> of
        None \<Rightarrow> None
      | Some (Inl err) \<Rightarrow> Some (Inl err)
      | Some (Inr str) \<Rightarrow> Some (Inr \<sigma>))"
| "do_call stack (Map_call func) \<sigma> = dynstackMap stack func \<sigma>"

fun do_calls :: "ptr \<Rightarrow> 'w call list \<Rightarrow> 'w memory \<Rightarrow> (error + 'w memory) option" where
  "do_calls stack [] \<sigma> = Some (Inr \<sigma>)"
| "do_calls stack (c # cs) \<sigma> =
     (case do_call stack c \<sigma> of
        None \<Rightarrow> None
      | Some (Inl err) \<Rightarrow> Some (Inl err)
      | Some (Inr \<sigma>1) \<Rightarrow> do_calls stack cs \<sigma>1)"

text \<open>
  What the run takes from \<^verbatim>\<open>malloc\<close>: a block it returns is not one that is still
  allocated. \<open>mallocs_fresh stack cs \<sigma>\<close> says so for every \<open>Push\<close> of the run \<open>cs\<close>, at
  the memory that \<open>Push\<close> starts from.
\<close>

fun malloc_fresh :: "'w call \<Rightarrow> 'w memory \<Rightarrow> bool" where
  "malloc_fresh (Push (Ptr a) e) \<sigma> = (frames \<sigma> a = None)"
| "malloc_fresh c \<sigma> = True"

fun mallocs_fresh :: "ptr \<Rightarrow> 'w call list \<Rightarrow> 'w memory \<Rightarrow> bool" where
  "mallocs_fresh stack [] \<sigma> = True"
| "mallocs_fresh stack (c # cs) \<sigma> =
     (malloc_fresh c \<sigma> \<and>
      (case do_call stack c \<sigma> of
         Some (Inr \<sigma>1) \<Rightarrow> mallocs_fresh stack cs \<sigma>1
       | _ \<Rightarrow> True))"

text \<open>
  \<open>net_depth cs n\<close>: for a run \<open>cs\<close> of pushes whose \<^verbatim>\<open>malloc\<close> succeeds and of pops,
  started on \<open>n\<close> elements, the number of pushes less the number of pops, plus \<open>n\<close>;
  \<open>None\<close> if a pop comes when no element is left, or if \<open>cs\<close> has another call.
\<close>

fun net_depth :: "'w call list \<Rightarrow> nat \<Rightarrow> nat option" where
  "net_depth [] n = Some n"
| "net_depth (Push (Ptr a) e # cs) n = net_depth cs (Suc n)"
| "net_depth (Pop # cs) n = (case n of 0 \<Rightarrow> None | Suc m \<Rightarrow> net_depth cs m)"
| "net_depth (c # cs) n = None"

text \<open>The pushes and the pops of a run, counted; and the run that makes the pushes \<open>aes\<close>.\<close>

fun pushes_in :: "'w call list \<Rightarrow> nat" where
  "pushes_in [] = 0"
| "pushes_in (Push m e # cs) = Suc (pushes_in cs)"
| "pushes_in (c # cs) = pushes_in cs"

fun pops_in :: "'w call list \<Rightarrow> nat" where
  "pops_in [] = 0"
| "pops_in (Pop # cs) = Suc (pops_in cs)"
| "pops_in (c # cs) = pops_in cs"

definition push_calls :: "(nat \<times> ptr) list \<Rightarrow> 'w call list" where
  "push_calls aes = map (\<lambda>(a, e). Push (Ptr a) e) aes"

text \<open>The text \<^verbatim>\<open>dynstackToString\<close> is to produce: the renderings, a line break between them.\<close>

fun lines_of :: "string list \<Rightarrow> string" where
  "lines_of [] = []"
| "lines_of [x] = x"
| "lines_of (x # y # ys) = x @ [CHR 0x0A] @ lines_of (y # ys)"

subsection \<open>Example memories\<close>

text \<open>
  A caller whose world is the list of the pointers its functions were called with:
  \<open>log_call\<close> stands for a \<^verbatim>\<open>deleteData\<close>, or for a function given to
  \<^verbatim>\<open>dynstackMap\<close>, that records its argument. \<open>render\<close> stands for a \<^verbatim>\<open>printData\<close>:
  it writes the pointer \<open>Ptr n\<close> as \<open>n\<close> strokes.
\<close>

definition log_call :: "ptr \<Rightarrow> ptr list \<Rightarrow> ptr list" where
  "log_call d w = w @ [d]"

definition render :: "ptr \<Rightarrow> ptr list \<Rightarrow> string" where
  "render d w = (case d of NULL \<Rightarrow> ''null'' | Ptr n \<Rightarrow> replicate n (CHR ''|''))"

definition fresh_stack :: "ptr list DynStack" where
  "fresh_stack = \<lparr>stack_top = NULL, stack_size = 0, deleteData = log_call, printData = render\<rparr>"

definition empty_memory :: "ptr list memory" where
  "empty_memory = \<lparr>stacks = Map.empty, frames = Map.empty, world = []\<rparr>"

text \<open>\<open>stack0\<close>: the memory after \<^verbatim>\<open>dynstackNew\<close> put a stack at address 0.\<close>

definition stack0 :: "ptr list memory" where
  "stack0 = \<lparr>stacks = [0 \<mapsto> fresh_stack], frames = Map.empty, world = []\<rparr>"

text \<open>
  \<open>pushed n\<close>: the memory after the \<open>n\<close> pushes \<open>numbered n\<close> on that stack. Frame \<open>a\<close>
  holds the element \<open>Ptr a\<close> and links to frame \<open>a - 1\<close>; the top is the last frame;
  \<^verbatim>\<open>size\<close> has been incremented \<open>n\<close> times.
\<close>

definition pushed :: "nat \<Rightarrow> ptr list memory" where
  "pushed n =
     \<lparr>stacks = [0 \<mapsto> fresh_stack\<lparr>stack_top := (case n of 0 \<Rightarrow> NULL | Suc i \<Rightarrow> Ptr i),
                                  stack_size := of_nat n\<rparr>],
      frames = (\<lambda>a. if a < n
                     then Some \<lparr>frame_data = Ptr a,
                                frame_next = (case a of 0 \<Rightarrow> NULL | Suc b \<Rightarrow> Ptr b)\<rparr>
                     else None),
      world = []\<rparr>"

text \<open>
  \<open>stack3\<close>: the memory after the elements \<open>Ptr 1\<close>, \<open>Ptr 2\<close>, \<open>Ptr 3\<close> were pushed on
  that stack, into the frames at 11, 12 and 13.
\<close>

definition stack3 :: "ptr list memory" where
  "stack3 =
     \<lparr>stacks = [0 \<mapsto> fresh_stack\<lparr>stack_top := Ptr 13, stack_size := 3\<rparr>],
      frames = [11 \<mapsto> \<lparr>frame_data = Ptr 1, frame_next = NULL\<rparr>,
                12 \<mapsto> \<lparr>frame_data = Ptr 2, frame_next = Ptr 11\<rparr>,
                13 \<mapsto> \<lparr>frame_data = Ptr 3, frame_next = Ptr 12\<rparr>],
      world = []\<rparr>"

section \<open>Chains and single calls\<close>

lemma chain_Cons:
  "chain h p ((a, d) # ns) \<longleftrightarrow>
     p = Ptr a \<and> (\<exists>f. h a = Some f \<and> frame_data f = d \<and> chain h (frame_next f) ns)"
  by (cases "h a") simp_all

declare chain.simps(2) [simp del]

declare chain_Cons [simp]

lemma chain_fun: "chain h p ns \<Longrightarrow> chain h p ms \<Longrightarrow> ns = ms"
proof (induction ns arbitrary: p ms)
  case Nil
  then show ?case by (cases ms) auto
next
  case (Cons n ns)
  obtain a d where n: "n = (a, d)" by (cases n)
  from Cons.prems(1) n obtain f where f: "p = Ptr a" "h a = Some f" "frame_data f = d"
      "chain h (frame_next f) ns"
    by auto
  from Cons.prems(2) f(1) obtain m ms' where ms: "ms = m # ms'"
    by (cases ms) auto
  obtain a' d' where m: "m = (a', d')" by (cases m)
  from Cons.prems(2) ms m f(1,2) have g: "a' = a" "frame_data f = d'" "chain h (frame_next f) ms'"
    by auto
  from Cons.IH [OF f(4) g(3)] f g n ms m show ?case by simp
qed

lemma chain_suffix:
  "chain h p (ns @ (a, d) # ms) \<Longrightarrow> chain h (Ptr a) ((a, d) # ms)"
proof (induction ns arbitrary: p)
  case Nil
  then show ?case by simp
next
  case (Cons n ns)
  obtain b e where n: "n = (b, e)" by (cases n)
  from Cons.prems n obtain f where "h b = Some f" "chain h (frame_next f) (ns @ (a, d) # ms)"
    by auto
  then show ?case using Cons.IH by blast
qed

lemma chain_fresh_head:
  assumes "chain h p ((a, d) # ns)"
  shows "a \<notin> fst ` set ns"
proof
  assume "a \<in> fst ` set ns"
  then obtain d' where "(a, d') \<in> set ns" by auto
  then obtain ns1 ns2 where ns: "ns = ns1 @ (a, d') # ns2"
    by (auto simp: in_set_conv_decomp)
  from assms have pa: "chain h (Ptr a) ((a, d) # ns)" by simp
  from pa ns have "chain h (Ptr a) (((a, d) # ns1) @ (a, d') # ns2)" by simp
  then have "chain h (Ptr a) ((a, d') # ns2)" by (rule chain_suffix)
  with pa have "(a, d) # ns = (a, d') # ns2" by (rule chain_fun)
  with ns show False by simp
qed

lemma chain_dom: "chain h p ns \<Longrightarrow> fst ` set ns \<subseteq> dom h"
proof (induction ns arbitrary: p)
  case Nil
  then show ?case by simp
next
  case (Cons n ns)
  obtain b e where n: "n = (b, e)" by (cases n)
  from Cons.prems n obtain f where f: "h b = Some f" "chain h (frame_next f) ns"
    by auto
  from Cons.IH [OF f(2)] f(1) n show ?case by auto
qed

lemma chain_upd_other:
  "a \<notin> fst ` set ns \<Longrightarrow> chain (h(a := x)) p ns = chain h p ns"
proof (induction ns arbitrary: p)
  case Nil
  then show ?case by simp
next
  case (Cons n ns)
  obtain b e where n: "n = (b, e)" by (cases n)
  with Cons.prems have "b \<noteq> a" "a \<notin> fst ` set ns" by auto
  with Cons.IH n show ?case by simp
qed

lemma chain_distinct: "chain h p ns \<Longrightarrow> distinct (map fst ns)"
proof (induction ns arbitrary: p)
  case Nil
  then show ?case by simp
next
  case (Cons n ns)
  obtain a d where n: "n = (a, d)" by (cases n)
  from Cons.prems n have "a \<notin> fst ` set ns" using chain_fresh_head by blast
  moreover from Cons.prems n obtain q where "chain h q ns" by auto
  ultimately show ?case using Cons.IH n by auto
qed

lemma chain_head: "chain h p ns \<Longrightarrow> p = head_ptr ns"
  by (cases ns) (auto simp: head_ptr_def)

lemma chain_drop: "chain h p (xs @ ys) \<Longrightarrow> chain h (head_ptr ys) ys"
proof (induction xs arbitrary: p)
  case Nil
  then show ?case using chain_head by fastforce
next
  case (Cons n xs)
  obtain a d where n: "n = (a, d)" by (cases n)
  from Cons.prems n obtain f :: DynFrame where "chain h (frame_next f) (xs @ ys)" by auto
  then show ?case by (rule Cons.IH)
qed

lemma chain_cong:
  "(\<And>a. a \<in> fst ` set ns \<Longrightarrow> h a = h' a) \<Longrightarrow> chain h p ns = chain h' p ns"
proof (induction ns arbitrary: p)
  case Nil
  then show ?case by simp
next
  case (Cons n ns)
  obtain a d where n: "n = (a, d)" by (cases n)
  from Cons.prems n have "h a = h' a" by simp
  moreover have "chain h q ns = chain h' q ns" for q
    using Cons.prems by (intro Cons.IH) simp
  ultimately show ?case using n by simp
qed

lemma holds_world [simp]: "holds (\<sigma>\<lparr>world := w\<rparr>) sa s ns = holds \<sigma> sa s ns"
  by (simp add: holds_def)

lemma push_eq:
  "stacks \<sigma> sa = Some s \<Longrightarrow>
   dynstackPush (Ptr a) (Ptr sa) d \<sigma> =
     Inr (True,
          \<sigma>\<lparr>frames := (frames \<sigma>)(a \<mapsto> \<lparr>frame_data = d, frame_next = stack_top s\<rparr>),
            stacks := (stacks \<sigma>)(sa \<mapsto> s\<lparr>stack_top := Ptr a, stack_size := stack_size s + 1\<rparr>)\<rparr>)"
  by (simp add: dynstackPush_def dynstackFrameNew_def)

lemma push_fail: "dynstackPush NULL stack d \<sigma> = Inr (False, \<sigma>)"
  by (simp add: dynstackPush_def dynstackFrameNew_def split: ptr.splits)

lemma push_holds:
  assumes "holds \<sigma> sa s ns" and "frames \<sigma> a = None"
  shows "holds
           (\<sigma>\<lparr>frames := (frames \<sigma>)(a \<mapsto> \<lparr>frame_data = d, frame_next = stack_top s\<rparr>),
              stacks := (stacks \<sigma>)(sa \<mapsto> s\<lparr>stack_top := Ptr a, stack_size := stack_size s + 1\<rparr>)\<rparr>)
           sa (s\<lparr>stack_top := Ptr a, stack_size := stack_size s + 1\<rparr>) ((a, d) # ns)"
proof -
  from assms(1) have c: "chain (frames \<sigma>) (stack_top s) ns"
    and n: "stack_size s = of_nat (length ns)"
    by (simp_all add: holds_def)
  from c assms(2) have "a \<notin> fst ` set ns" using chain_dom by fastforce
  then have "chain ((frames \<sigma>)(a \<mapsto> x)) (stack_top s) ns" for x
    using c by (simp add: chain_upd_other)
  with n show ?thesis by (simp add: holds_def)
qed

lemma pop_eq:
  "stacks \<sigma> sa = Some s \<Longrightarrow> stack_top s = Ptr a \<Longrightarrow> frames \<sigma> a = Some f \<Longrightarrow>
   dynstackPop (Ptr sa) \<sigma> =
     Inr (frame_data f,
          \<sigma>\<lparr>stacks := (stacks \<sigma>)(sa \<mapsto> s\<lparr>stack_top := frame_next f, stack_size := stack_size s - 1\<rparr>),
            frames := (frames \<sigma>)(a := None)\<rparr>)"
  by (simp add: dynstackPop_def)

lemma pop_holds:
  assumes "holds \<sigma> sa s ((a, d) # ns)"
  shows "dynstackPop (Ptr sa) \<sigma> =
           Inr (d,
                \<sigma>\<lparr>stacks := (stacks \<sigma>)(sa \<mapsto> s\<lparr>stack_top := head_ptr ns, stack_size := stack_size s - 1\<rparr>),
                  frames := (frames \<sigma>)(a := None)\<rparr>)"
    and "holds
           (\<sigma>\<lparr>stacks := (stacks \<sigma>)(sa \<mapsto> s\<lparr>stack_top := head_ptr ns, stack_size := stack_size s - 1\<rparr>),
              frames := (frames \<sigma>)(a := None)\<rparr>)
           sa (s\<lparr>stack_top := head_ptr ns, stack_size := stack_size s - 1\<rparr>) ns"
proof -
  from assms obtain f where s: "stacks \<sigma> sa = Some s" "stack_top s = Ptr a"
      "frames \<sigma> a = Some f" "frame_data f = d" "chain (frames \<sigma>) (frame_next f) ns"
      "stack_size s = of_nat (Suc (length ns))"
    by (auto simp: holds_def)
  from s(5) have nx: "frame_next f = head_ptr ns" by (rule chain_head)
  from s(2,3,4,5) have "chain (frames \<sigma>) (Ptr a) ((a, d) # ns)" by simp
  then have "a \<notin> fst ` set ns" by (rule chain_fresh_head)
  then have c: "chain ((frames \<sigma>)(a := None)) (head_ptr ns) ns"
    using s(5) nx by (simp add: chain_upd_other)
  from s nx show "dynstackPop (Ptr sa) \<sigma> =
           Inr (d,
                \<sigma>\<lparr>stacks := (stacks \<sigma>)(sa \<mapsto> s\<lparr>stack_top := head_ptr ns, stack_size := stack_size s - 1\<rparr>),
                  frames := (frames \<sigma>)(a := None)\<rparr>)"
    by (simp add: pop_eq)
  from c s(6) show "holds
           (\<sigma>\<lparr>stacks := (stacks \<sigma>)(sa \<mapsto> s\<lparr>stack_top := head_ptr ns, stack_size := stack_size s - 1\<rparr>),
              frames := (frames \<sigma>)(a := None)\<rparr>)
           sa (s\<lparr>stack_top := head_ptr ns, stack_size := stack_size s - 1\<rparr>) ns"
    by (simp add: holds_def)
qed

lemma pop_empty:
  assumes "holds \<sigma> sa s []"
  shows "dynstackPop (Ptr sa) \<sigma> = Inr (NULL, \<sigma>)"
  using assms by (simp add: holds_def dynstackPop_def)

lemma peek_holds:
  "holds \<sigma> sa s ns \<Longrightarrow>
   dynstackPeek (Ptr sa) \<sigma> = Inr (case ns of [] \<Rightarrow> NULL | (a, d) # ms \<Rightarrow> d)"
  by (cases ns) (auto simp: holds_def dynstackPeek_def)

lemma size_holds: "holds \<sigma> sa s ns \<Longrightarrow> dynstackGetSize (Ptr sa) \<sigma> = Inr (of_nat (length ns))"
  by (simp add: holds_def dynstackGetSize_def)

lemma empty_holds:
  "holds \<sigma> sa s ns \<Longrightarrow> dynstackIsEmpty (Ptr sa) \<sigma> = Inr (stack_size s = 0)"
  by (simp add: holds_def dynstackIsEmpty_def dynstackGetSize_def)

lemma size_zero_iff:
  assumes "length ns < 2 ^ 32"
  shows "(of_nat (length ns) = (0 :: 32 word)) \<longleftrightarrow> ns = []"
proof
  assume "of_nat (length ns) = (0 :: 32 word)"
  then have "(2 :: nat) ^ 32 dvd length ns" by (simp add: word_of_nat_eq_0_iff)
  with assms have "length ns = 0" by (auto dest: dvd_imp_le)
  then show "ns = []" by simp
qed simp

section \<open>The loops\<close>

lemma clear_loop_run:
  assumes "holds \<sigma> sa s ns" and "unat (stack_size s) = k"
  shows "k \<le> length ns \<and>
         dynstackClear_loop (Ptr sa) \<sigma> =
           Some (Inr (\<sigma>\<lparr>stacks := (stacks \<sigma>)(sa \<mapsto>
                          s\<lparr>stack_top := head_ptr (drop k ns), stack_size := 0\<rparr>),
                        frames := (\<lambda>b. if b \<in> fst ` set (take k ns) then None else frames \<sigma> b),
                        world := fold (deleteData s) (map snd (take k ns)) (world \<sigma>)\<rparr>))"
  using assms
proof (induction k arbitrary: \<sigma> s ns)
  case 0
  then have z: "stack_size s = 0" by (simp add: unat_eq_0)
  from "0.prems"(1) have st: "stacks \<sigma> sa = Some s" and "chain (frames \<sigma>) (stack_top s) ns"
    by (simp_all add: holds_def)
  then have hd: "stack_top s = head_ptr ns" by (simp add: chain_head)
  have e1: "s\<lparr>stack_top := head_ptr (drop 0 ns), stack_size := 0\<rparr> = s"
    using hd z by simp
  have e2: "(stacks \<sigma>)(sa \<mapsto> s) = stacks \<sigma>"
    using st by (rule map_upd_triv)
  have e3: "(\<lambda>b. if b \<in> fst ` set (take 0 ns) then None else frames \<sigma> b) = frames \<sigma>"
    by simp
  have e4: "fold (deleteData s) (map snd (take 0 ns)) (world \<sigma>) = world \<sigma>"
    by simp
  have "dynstackClear_loop (Ptr sa) \<sigma> = Some (Inr \<sigma>)"
    using "0.prems"(1) z
    by (subst dynstackClear_loop.simps) (simp add: empty_holds)
  then show ?case unfolding e1 e2 e3 e4 by simp
next
  case (Suc k)
  then have nz: "stack_size s \<noteq> 0" by auto
  with Suc.prems(1) have "ns \<noteq> []" by (auto simp: holds_def)
  then obtain a d ns' where ns: "ns = (a, d) # ns'" by (cases ns) auto
  let ?s1 = "s\<lparr>stack_top := head_ptr ns', stack_size := stack_size s - 1\<rparr>"
  let ?\<sigma>1 = "\<sigma>\<lparr>stacks := (stacks \<sigma>)(sa \<mapsto> ?s1), frames := (frames \<sigma>)(a := None)\<rparr>"
  let ?\<sigma>2 = "?\<sigma>1\<lparr>world := deleteData ?s1 d (world ?\<sigma>1)\<rparr>"
  from Suc.prems(1) ns have pop: "dynstackPop (Ptr sa) \<sigma> = Inr (d, ?\<sigma>1)"
    and h1: "holds ?\<sigma>1 sa ?s1 ns'"
    by (simp_all add: pop_holds)
  from h1 have h2: "holds ?\<sigma>2 sa ?s1 ns'" by simp
  from nz Suc.prems(2) have k: "unat (stack_size ?s1) = k"
    by (simp add: unat_minus_one)
  note ih = Suc.IH [OF h2 k]
  from ih have le: "k \<le> length ns'" by (rule conjunct1)
  from ih have run: "dynstackClear_loop (Ptr sa) ?\<sigma>2 =
      Some (Inr (?\<sigma>2\<lparr>stacks := (stacks ?\<sigma>2)(sa \<mapsto>
                          ?s1\<lparr>stack_top := head_ptr (drop k ns'), stack_size := 0\<rparr>),
                        frames := (\<lambda>b. if b \<in> fst ` set (take k ns') then None else frames ?\<sigma>2 b),
                        world := fold (deleteData ?s1) (map snd (take k ns')) (world ?\<sigma>2)\<rparr>))"
    by (rule conjunct2)
  have unfold: "dynstackClear_loop (Ptr sa) \<sigma> = dynstackClear_loop (Ptr sa) ?\<sigma>2"
    using Suc.prems(1) nz pop
    by (subst dynstackClear_loop.simps) (simp add: empty_holds)
  have st_eq: "(stacks ?\<sigma>2)(sa \<mapsto> ?s1\<lparr>stack_top := head_ptr (drop k ns'), stack_size := 0\<rparr>)
      = (stacks \<sigma>)(sa \<mapsto> s\<lparr>stack_top := head_ptr (drop (Suc k) ns), stack_size := 0\<rparr>)"
    by (simp add: ns)
  have fr_eq: "(\<lambda>b. if b \<in> fst ` set (take k ns') then None else frames ?\<sigma>2 b)
      = (\<lambda>b. if b \<in> fst ` set (take (Suc k) ns) then None else frames \<sigma> b)"
    by (rule ext) (simp add: ns)
  have w_eq: "fold (deleteData ?s1) (map snd (take k ns')) (world ?\<sigma>2)
      = fold (deleteData s) (map snd (take (Suc k) ns)) (world \<sigma>)"
    by (simp add: ns)
  have "?\<sigma>2\<lparr>stacks := (stacks ?\<sigma>2)(sa \<mapsto>
                          ?s1\<lparr>stack_top := head_ptr (drop k ns'), stack_size := 0\<rparr>),
                        frames := (\<lambda>b. if b \<in> fst ` set (take k ns') then None else frames ?\<sigma>2 b),
                        world := fold (deleteData ?s1) (map snd (take k ns')) (world ?\<sigma>2)\<rparr>
      = \<sigma>\<lparr>stacks := (stacks \<sigma>)(sa \<mapsto>
                          s\<lparr>stack_top := head_ptr (drop (Suc k) ns), stack_size := 0\<rparr>),
                        frames := (\<lambda>b. if b \<in> fst ` set (take (Suc k) ns) then None else frames \<sigma> b),
                        world := fold (deleteData s) (map snd (take (Suc k) ns)) (world \<sigma>)\<rparr>"
    unfolding st_eq fr_eq w_eq by simp
  with run have "dynstackClear_loop (Ptr sa) ?\<sigma>2 =
      Some (Inr (\<sigma>\<lparr>stacks := (stacks \<sigma>)(sa \<mapsto>
                          s\<lparr>stack_top := head_ptr (drop (Suc k) ns), stack_size := 0\<rparr>),
                        frames := (\<lambda>b. if b \<in> fst ` set (take (Suc k) ns) then None else frames \<sigma> b),
                        world := fold (deleteData s) (map snd (take (Suc k) ns)) (world \<sigma>)\<rparr>))"
    by (simp only:)
  with unfold have final: "dynstackClear_loop (Ptr sa) \<sigma> =
      Some (Inr (\<sigma>\<lparr>stacks := (stacks \<sigma>)(sa \<mapsto>
                          s\<lparr>stack_top := head_ptr (drop (Suc k) ns), stack_size := 0\<rparr>),
                        frames := (\<lambda>b. if b \<in> fst ` set (take (Suc k) ns) then None else frames \<sigma> b),
                        world := fold (deleteData s) (map snd (take (Suc k) ns)) (world \<sigma>)\<rparr>))"
    by (rule trans)
  from le ns have "Suc k \<le> length ns" by simp
  then show ?case using final by (rule conjI)
qed

lemma clear_final_holds:
  assumes "holds \<sigma> sa s ns" and "unat (stack_size s) = k"
  shows "holds (\<sigma>\<lparr>stacks := (stacks \<sigma>)(sa \<mapsto>
                          s\<lparr>stack_top := head_ptr (drop k ns), stack_size := 0\<rparr>),
                   frames := (\<lambda>b. if b \<in> fst ` set (take k ns) then None else frames \<sigma> b),
                   world := w\<rparr>)
           sa (s\<lparr>stack_top := head_ptr (drop k ns), stack_size := 0\<rparr>) (drop k ns)"
proof -
  from assms(1) have c: "chain (frames \<sigma>) (stack_top s) ns"
    and n: "stack_size s = of_nat (length ns)"
    by (simp_all add: holds_def)
  from c have "chain (frames \<sigma>) (stack_top s) (take k ns @ drop k ns)" by simp
  then have c2: "chain (frames \<sigma>) (head_ptr (drop k ns)) (drop k ns)" by (rule chain_drop)
  from c have "distinct (map fst ns)" by (rule chain_distinct)
  then have "set (take k (map fst ns)) \<inter> set (drop k (map fst ns)) = {}"
    by (rule set_take_disj_set_drop_if_distinct) simp
  then have "fst ` set (take k ns) \<inter> fst ` set (drop k ns) = {}"
    by (simp add: take_map drop_map)
  then have "chain (\<lambda>b. if b \<in> fst ` set (take k ns) then None else frames \<sigma> b)
      (head_ptr (drop k ns)) (drop k ns) = chain (frames \<sigma>) (head_ptr (drop k ns)) (drop k ns)"
    by (intro chain_cong) auto
  with c2 have c3: "chain (\<lambda>b. if b \<in> fst ` set (take k ns) then None else frames \<sigma> b)
      (head_ptr (drop k ns)) (drop k ns)" by simp
  from n assms(2) have k: "k = length ns mod 2 ^ 32" by (simp add: unat_of_nat)
  then have "length ns - k = 2 ^ 32 * (length ns div 2 ^ 32)"
    by (simp add: minus_mod_eq_mult_div)
  then have "(2 :: nat) ^ 32 dvd length (drop k ns)" by simp
  then have "(of_nat (length (drop k ns)) :: 32 word) = 0"
    by (simp only: word_of_nat_eq_0_iff) simp
  with c3 show ?thesis by (simp add: holds_def)
qed

text \<open>
  \<^verbatim>\<open>dynstackFree\<close> on a stack of fewer than \<open>2 ^ 32\<close> frames: the elements are released
  as by \<^verbatim>\<open>dynstackClear\<close>, and the struct is freed.
\<close>

lemma free_releases_each_once:
  assumes "holds \<sigma> sa s ns" and "length ns < 2 ^ 32"
  shows "dynstackFree (Ptr sa) \<sigma> =
           Some (Inr (\<sigma>\<lparr>stacks := (stacks \<sigma>)(sa := None),
                        frames := (\<lambda>b. if b \<in> fst ` set ns then None else frames \<sigma> b),
                        world := fold (deleteData s) (map snd ns) (world \<sigma>)\<rparr>))"
proof -
  from assms have k: "unat (stack_size s) = length ns"
    by (simp add: holds_def unat_of_nat)
  have t: "take (length ns) ns = ns" and d: "drop (length ns) ns = []"
    by simp_all
  note run = clear_loop_run [OF assms(1) k, THEN conjunct2, unfolded t d]
  have "dynstackFree (Ptr sa) \<sigma> =
      (case dynstackClear_loop (Ptr sa) \<sigma> of
         None \<Rightarrow> None
       | Some (Inl e) \<Rightarrow> Some (Inl e)
       | Some (Inr \<sigma>1) \<Rightarrow> Some (Inr (\<sigma>1\<lparr>stacks := (stacks \<sigma>1)(sa := None)\<rparr>)))"
    by (simp add: dynstackFree_def dynstackClear_def)
  then show ?thesis unfolding run by simp
qed

lemma map_loop_run:
  "chain (frames \<sigma>) p ns \<Longrightarrow>
   dynstackMap_loop func p \<sigma> = Some (Inr (\<sigma>\<lparr>world := fold func (map snd ns) (world \<sigma>)\<rparr>))"
proof (induction ns arbitrary: p \<sigma>)
  case Nil
  then show ?case by (subst dynstackMap_loop.simps) simp
next
  case (Cons n ns)
  obtain a d where n: "n = (a, d)" by (cases n)
  from Cons.prems n obtain f where f: "p = Ptr a" "frames \<sigma> a = Some f" "frame_data f = d"
      "chain (frames \<sigma>) (frame_next f) ns"
    by auto
  let ?\<sigma>1 = "\<sigma>\<lparr>world := func d (world \<sigma>)\<rparr>"
  from f(4) have "chain (frames ?\<sigma>1) (frame_next f) ns" by simp
  then have "dynstackMap_loop func (frame_next f) ?\<sigma>1 =
      Some (Inr (?\<sigma>1\<lparr>world := fold func (map snd ns) (world ?\<sigma>1)\<rparr>))"
    by (rule Cons.IH)
  moreover have "dynstackMap_loop func p \<sigma> = dynstackMap_loop func (frame_next f) ?\<sigma>1"
    using f by (subst dynstackMap_loop.simps) simp
  ultimately show ?case using n by simp
qed

lemma map_holds:
  assumes "holds \<sigma> sa s ns" and "ns = [] \<or> stack_size s \<noteq> 0"
  shows "dynstackMap (Ptr sa) func \<sigma> =
           Some (Inr (\<sigma>\<lparr>world := fold func (map snd ns) (world \<sigma>)\<rparr>))"
proof (cases "stack_size s = 0")
  case True
  with assms have "ns = []" by simp
  with assms(1) True show ?thesis
    by (simp add: holds_def dynstackMap_def dynstackIsEmpty_def dynstackGetSize_def)
next
  case False
  from assms(1) have "stacks \<sigma> sa = Some s" "chain (frames \<sigma>) (stack_top s) ns"
    by (simp_all add: holds_def)
  with False show ?thesis
    by (simp add: dynstackMap_def dynstackIsEmpty_def dynstackGetSize_def map_loop_run)
qed

lemma map_wrapped:
  assumes "holds \<sigma> sa s ns" and "stack_size s = 0"
  shows "dynstackMap (Ptr sa) func \<sigma> = Some (Inr \<sigma>)"
  using assms
  by (simp add: holds_def dynstackMap_def dynstackIsEmpty_def dynstackGetSize_def)

lemma toString_loop_run:
  "stacks \<sigma> sa = Some s \<Longrightarrow> chain (frames \<sigma>) cur ns \<Longrightarrow>
   (\<And>i. i < length ns \<Longrightarrow> rs i \<noteq> NULL) \<Longrightarrow>
   dynstackToString_loop rs (Ptr sa) cur acc \<sigma> =
     Some (Inr (acc @ concat (map (\<lambda>n. CHR 0x0A # printData s (snd n) (world \<sigma>)) ns)))"
proof (induction ns arbitrary: cur acc rs)
  case Nil
  then show ?case by (subst dynstackToString_loop.simps) simp
next
  case (Cons n ns)
  obtain a d where n: "n = (a, d)" by (cases n)
  from Cons.prems n obtain f where f: "cur = Ptr a" "frames \<sigma> a = Some f" "frame_data f = d"
      "chain (frames \<sigma>) (frame_next f) ns"
    by auto
  from Cons.prems(3) [of 0] obtain b where r0: "rs 0 = Ptr b"
    by (cases "rs 0") auto
  have rest: "(\<lambda>i. rs (Suc i)) i \<noteq> NULL" if "i < length ns" for i
    using Cons.prems(3) [of "Suc i"] that by simp
  have "dynstackToString_loop rs (Ptr sa) cur acc \<sigma> =
      dynstackToString_loop (\<lambda>i. rs (Suc i)) (Ptr sa) (frame_next f)
        (acc @ [CHR 0x0A] @ printData s d (world \<sigma>)) \<sigma>"
    using f r0 Cons.prems(1) by (subst dynstackToString_loop.simps) simp
  also have "\<dots> = Some (Inr ((acc @ [CHR 0x0A] @ printData s d (world \<sigma>)) @
      concat (map (\<lambda>n. CHR 0x0A # printData s (snd n) (world \<sigma>)) ns)))"
    using Cons.prems(1) f(4) rest by (rule Cons.IH)
  finally show ?case using n by simp
qed

text \<open>
  Where the allocation fails the code does not return: the terminator, or the line
  break, is written through \<^verbatim>\<open>NULL\<close>.
\<close>

lemma topToString_malloc_fails:
  assumes "holds \<sigma> sa s []"
  shows "dynstackTopToString NULL (Ptr sa) \<sigma> = Inl SegFault"
  using assms
  by (simp add: holds_def dynstackTopToString_def dynstackIsEmpty_def dynstackGetSize_def)

lemma toString_malloc_fails:
  assumes "holds \<sigma> sa s []"
  shows "dynstackToString NULL rs (Ptr sa) \<sigma> = Some (Inl SegFault)"
  using assms
  by (simp add: dynstackToString_def topToString_malloc_fails)

lemma toString_realloc_fails:
  assumes "holds \<sigma> sa s ((a1, A) # (a2, B) # ns)" and "stack_size s \<noteq> 0" and "rs 0 = NULL"
  shows "dynstackToString m rs (Ptr sa) \<sigma> = Some (Inl SegFault)"
proof -
  from assms(1) obtain f g where f: "stacks \<sigma> sa = Some s" "stack_top s = Ptr a1"
      "frames \<sigma> a1 = Some f" "frame_next f = Ptr a2" "frames \<sigma> a2 = Some g"
    by (auto simp: holds_def)
  with assms(3) have "dynstackToString_loop rs (Ptr sa) (Ptr a2) acc \<sigma> = Some (Inl SegFault)" for acc
    by (subst dynstackToString_loop.simps) simp
  with f assms(2) show ?thesis
    by (simp add: dynstackToString_def dynstackTopToString_def dynstackIsEmpty_def
        dynstackGetSize_def)
qed

lemma lines_of_Cons: "lines_of (x # xs) = x @ concat (map (\<lambda>y. CHR 0x0A # y) xs)"
  by (induction xs arbitrary: x) simp_all

lemma toString_holds:
  assumes "holds \<sigma> sa s ns" and "ns = [] \<or> stack_size s \<noteq> 0"
    and "ns = [] \<Longrightarrow> m \<noteq> NULL" and "\<And>i. i < length ns - 1 \<Longrightarrow> rs i \<noteq> NULL"
  shows "dynstackToString m rs (Ptr sa) \<sigma> =
           Some (Inr (Some (lines_of (map (\<lambda>n. printData s (snd n) (world \<sigma>)) ns))))"
proof (cases ns)
  case Nil
  with assms(3) obtain b where "m = Ptr b" by (cases m) auto
  moreover from Nil assms(1) have "stack_size s = 0" "stacks \<sigma> sa = Some s"
    by (simp_all add: holds_def)
  ultimately have "dynstackToString m rs (Ptr sa) \<sigma> = Some (Inr (Some []))"
    by (simp add: dynstackToString_def dynstackTopToString_def dynstackIsEmpty_def
        dynstackGetSize_def dynstackToString_loop.simps [of _ _ NULL])
  with Nil show ?thesis by simp
next
  case (Cons n ns')
  obtain a d where n: "n = (a, d)" by (cases n)
  from assms Cons have nz: "stack_size s \<noteq> 0" by simp
  from assms(1) Cons n obtain f where f: "stacks \<sigma> sa = Some s" "stack_top s = Ptr a"
      "frames \<sigma> a = Some f" "frame_data f = d" "chain (frames \<sigma>) (frame_next f) ns'"
    by (auto simp: holds_def)
  have r: "rs i \<noteq> NULL" if "i < length ns'" for i
    using assms(4) [of i] that Cons by simp
  from f(1,5) r
  have "dynstackToString_loop rs (Ptr sa) (frame_next f) (printData s d (world \<sigma>)) \<sigma> =
      Some (Inr (printData s d (world \<sigma>) @
        concat (map (\<lambda>n. CHR 0x0A # printData s (snd n) (world \<sigma>)) ns')))"
    by (rule toString_loop_run)
  with f nz have "dynstackToString m rs (Ptr sa) \<sigma> =
      Some (Inr (Some (printData s d (world \<sigma>) @
        concat (map (\<lambda>n. CHR 0x0A # printData s (snd n) (world \<sigma>)) ns'))))"
    by (simp add: dynstackToString_def dynstackTopToString_def dynstackIsEmpty_def
        dynstackGetSize_def)
  with Cons n show ?thesis by (simp add: lines_of_Cons comp_def)
qed

lemma toString_wrapped:
  assumes "holds \<sigma> sa s ns" and "stack_size s = 0" and "m \<noteq> NULL"
  shows "dynstackToString m rs (Ptr sa) \<sigma> = Some (Inr (Some []))"
proof -
  from assms(3) obtain b where "m = Ptr b" by (cases m) auto
  with assms(1,2) show ?thesis
    by (simp add: holds_def dynstackToString_def dynstackTopToString_def dynstackIsEmpty_def
        dynstackGetSize_def dynstackToString_loop.simps [of _ _ NULL])
qed

section \<open>Sequences of calls\<close>

lemma pushes_append:
  "pushes stack (xs @ ys) \<sigma> =
     (case pushes stack xs \<sigma> of
        Inl err \<Rightarrow> Inl err
      | Inr (oks, \<sigma>1) \<Rightarrow>
          (case pushes stack ys \<sigma>1 of
             Inl err \<Rightarrow> Inl err
           | Inr (oks', \<sigma>2) \<Rightarrow> Inr (oks @ oks', \<sigma>2)))"
proof (induction xs arbitrary: \<sigma>)
  case Nil
  show ?case by (simp split: sum.splits)
next
  case (Cons x xs)
  obtain m e where "x = (m, e)" by (cases x)
  with Cons show ?case by (simp split: sum.splits prod.splits)
qed

lemma pushes_run:
  assumes "holds \<sigma> sa s ns" and "distinct (map fst aes)"
    and "\<And>a. a \<in> fst ` set aes \<Longrightarrow> frames \<sigma> a = None"
  shows "\<exists>\<sigma>1 s1. pushes (Ptr sa) (allocs aes) \<sigma> = Inr (replicate (length aes) True, \<sigma>1) \<and>
           holds \<sigma>1 sa s1 (rev aes @ ns) \<and> world \<sigma>1 = world \<sigma> \<and>
           deleteData s1 = deleteData s \<and> printData s1 = printData s \<and>
           stack_size s1 = stack_size s + of_nat (length aes)"
  using assms
proof (induction aes arbitrary: \<sigma> s ns)
  case Nil
  then show ?case by (auto simp: allocs_def)
next
  case (Cons ae aes)
  obtain a e where ae: "ae = (a, e)" by (cases ae)
  let ?s' = "s\<lparr>stack_top := Ptr a, stack_size := stack_size s + 1\<rparr>"
  let ?\<sigma>' = "\<sigma>\<lparr>frames := (frames \<sigma>)(a \<mapsto> \<lparr>frame_data = e, frame_next = stack_top s\<rparr>),
            stacks := (stacks \<sigma>)(sa \<mapsto> ?s')\<rparr>"
  from Cons.prems(1) have st: "stacks \<sigma> sa = Some s" by (simp add: holds_def)
  from Cons.prems(3) ae have fresh: "frames \<sigma> a = None" by simp
  from st have push: "dynstackPush (Ptr a) (Ptr sa) e \<sigma> = Inr (True, ?\<sigma>')" by (rule push_eq)
  from Cons.prems(1) fresh have h': "holds ?\<sigma>' sa ?s' ((a, e) # ns)" by (rule push_holds)
  from Cons.prems(2) ae have d': "distinct (map fst aes)" and na: "a \<notin> fst ` set aes" by auto
  have f': "frames ?\<sigma>' b = None" if "b \<in> fst ` set aes" for b
    using that na Cons.prems(3) by auto
  from Cons.IH [OF h' d' f'] obtain \<sigma>1 s1 where
    r: "pushes (Ptr sa) (allocs aes) ?\<sigma>' = Inr (replicate (length aes) True, \<sigma>1)"
      "holds \<sigma>1 sa s1 (rev aes @ (a, e) # ns)" "world \<sigma>1 = world ?\<sigma>'"
      "deleteData s1 = deleteData ?s'" "printData s1 = printData ?s'"
      "stack_size s1 = stack_size ?s' + of_nat (length aes)"
    by blast
  from push r(1) ae have "pushes (Ptr sa) (allocs (ae # aes)) \<sigma> =
      Inr (replicate (length (ae # aes)) True, \<sigma>1)"
    by (simp add: allocs_def)
  moreover from r(2) ae have "holds \<sigma>1 sa s1 (rev (ae # aes) @ ns)" by simp
  moreover from r(6) have "stack_size s1 = stack_size s + of_nat (length (ae # aes))" by simp
  ultimately show ?case using r(3,4,5) by auto
qed

lemma pops_run:
  assumes "holds \<sigma> sa s (ms @ ns)"
  shows "\<exists>\<sigma>2 s2. pops (Ptr sa) (length ms) \<sigma> = Inr (map snd ms, \<sigma>2) \<and>
           holds \<sigma>2 sa s2 ns \<and> world \<sigma>2 = world \<sigma> \<and>
           deleteData s2 = deleteData s \<and> printData s2 = printData s \<and>
           stack_size s2 = stack_size s - of_nat (length ms)"
  using assms
proof (induction ms arbitrary: \<sigma> s)
  case Nil
  then show ?case by auto
next
  case (Cons m ms)
  obtain a d where m: "m = (a, d)" by (cases m)
  let ?s' = "s\<lparr>stack_top := head_ptr (ms @ ns), stack_size := stack_size s - 1\<rparr>"
  let ?\<sigma>' = "\<sigma>\<lparr>stacks := (stacks \<sigma>)(sa \<mapsto> ?s'), frames := (frames \<sigma>)(a := None)\<rparr>"
  from Cons.prems m have h: "holds \<sigma> sa s ((a, d) # (ms @ ns))" by simp
  then have pop: "dynstackPop (Ptr sa) \<sigma> = Inr (d, ?\<sigma>')" and h': "holds ?\<sigma>' sa ?s' (ms @ ns)"
    by (rule pop_holds)+
  from Cons.IH [OF h'] obtain \<sigma>2 s2 where
    r: "pops (Ptr sa) (length ms) ?\<sigma>' = Inr (map snd ms, \<sigma>2)" "holds \<sigma>2 sa s2 ns"
      "world \<sigma>2 = world ?\<sigma>'" "deleteData s2 = deleteData ?s'" "printData s2 = printData ?s'"
      "stack_size s2 = stack_size ?s' - of_nat (length ms)"
    by blast
  from pop r(1) m have "pops (Ptr sa) (length (m # ms)) \<sigma> = Inr (map snd (m # ms), \<sigma>2)"
    by simp
  moreover from r(6) have "stack_size s2 = stack_size s - of_nat (length (m # ms))" by simp
  ultimately show ?case using r(2,3,4,5) by auto
qed

lemma do_calls_push_calls:
  "pushes stack (allocs aes) \<sigma> = Inr (oks, \<sigma>1) \<Longrightarrow>
   do_calls stack (push_calls aes) \<sigma> = Some (Inr \<sigma>1)"
proof (induction aes arbitrary: \<sigma> oks)
  case Nil
  then show ?case by (simp add: allocs_def push_calls_def)
next
  case (Cons ae aes)
  obtain a e where ae: "ae = (a, e)" by (cases ae)
  from Cons.prems ae obtain ok \<sigma>' oks' where
    p: "dynstackPush (Ptr a) stack e \<sigma> = Inr (ok, \<sigma>')"
    and r: "pushes stack (allocs aes) \<sigma>' = Inr (oks', \<sigma>1)"
    by (auto simp: allocs_def split: sum.splits prod.splits)
  from Cons.IH [OF r] p ae show ?case
    by (simp add: push_calls_def)
qed

lemma new_success:
  assumes "dynstackNew m deleteFunc printFunc \<sigma>0 = (stack, \<sigma>)" and "stack \<noteq> NULL"
  obtains sa del prt where "m = Ptr sa" "stack = Ptr sa" "deleteFunc = Some del"
    "printFunc = Some prt" "frames \<sigma> = frames \<sigma>0" "world \<sigma> = world \<sigma>0"
    "holds \<sigma> sa \<lparr>stack_top = NULL, stack_size = 0, deleteData = del, printData = prt\<rparr> []"
  using assms
  by (auto simp: dynstackNew_def holds_def split: option.splits ptr.splits)

lemma do_call_holds:
  assumes "holds \<sigma> sa s ns" and "malloc_fresh c \<sigma>"
  shows "\<exists>\<sigma>' s' ns'. do_call (Ptr sa) c \<sigma> = Some (Inr \<sigma>') \<and> holds \<sigma>' sa s' ns'"
proof (cases c)
  case (Push m e)
  show ?thesis
  proof (cases m)
    case NULL
    with Push assms(1) show ?thesis by (auto simp: push_fail)
  next
    case (Ptr a)
    with Push assms(2) have fresh: "frames \<sigma> a = None" by simp
    from assms(1) have "stacks \<sigma> sa = Some s" by (simp add: holds_def)
    then have "do_call (Ptr sa) c \<sigma> =
        Some (Inr (\<sigma>\<lparr>frames := (frames \<sigma>)(a \<mapsto> \<lparr>frame_data = e, frame_next = stack_top s\<rparr>),
          stacks := (stacks \<sigma>)(sa \<mapsto> s\<lparr>stack_top := Ptr a, stack_size := stack_size s + 1\<rparr>)\<rparr>))"
      using Push Ptr by (simp add: push_eq)
    with push_holds [OF assms(1) fresh] show ?thesis by blast
  qed
next
  case Pop
  show ?thesis
  proof (cases ns)
    case Nil
    with assms(1) Pop show ?thesis by (auto simp: pop_empty)
  next
    case (Cons n ns')
    obtain a d where "n = (a, d)" by (cases n)
    with Cons assms(1) have h: "holds \<sigma> sa s ((a, d) # ns')" by simp
    from pop_holds [OF h] Pop show ?thesis by auto
  qed
next
  case Peek
  with assms(1) show ?thesis by (auto simp: peek_holds)
next
  case GetSize
  with assms(1) show ?thesis by (auto simp: size_holds)
next
  case IsEmpty
  with assms(1) show ?thesis by (auto simp: empty_holds)
next
  case Clear
  obtain k where k: "unat (stack_size s) = k" by simp
  note run = clear_loop_run [OF assms(1) k, THEN conjunct2]
  note h = clear_final_holds [OF assms(1) k,
      of "fold (deleteData s) (map snd (take k ns)) (world \<sigma>)"]
  have "do_call (Ptr sa) c \<sigma> = dynstackClear_loop (Ptr sa) \<sigma>"
    using Clear by (simp add: dynstackClear_def)
  with run h show ?thesis by (simp only:) blast
next
  case ToString
  show ?thesis
  proof (cases "stack_size s = 0")
    case True
    with assms(1) ToString show ?thesis by (auto simp: toString_wrapped)
  next
    case False
    with assms(1) ToString show ?thesis by (auto simp: toString_holds)
  qed
next
  case (Map_call func)
  show ?thesis
  proof (cases "stack_size s = 0")
    case True
    with assms(1) Map_call show ?thesis by (auto simp: map_wrapped)
  next
    case False
    with assms(1) have "dynstackMap (Ptr sa) func \<sigma> =
        Some (Inr (\<sigma>\<lparr>world := fold func (map snd ns) (world \<sigma>)\<rparr>))"
      by (simp add: map_holds)
    moreover from assms(1) have "holds (\<sigma>\<lparr>world := fold func (map snd ns) (world \<sigma>)\<rparr>) sa s ns"
      by simp
    ultimately show ?thesis using Map_call by (simp only: do_call.simps) blast
  qed
qed

lemma do_calls_holds:
  assumes "holds \<sigma> sa s ns" and "mallocs_fresh (Ptr sa) cs \<sigma>"
  shows "\<exists>\<sigma>' s' ns'. do_calls (Ptr sa) cs \<sigma> = Some (Inr \<sigma>') \<and> holds \<sigma>' sa s' ns'"
  using assms
proof (induction cs arbitrary: \<sigma> s ns)
  case Nil
  then show ?case by auto
next
  case (Cons c cs)
  from Cons.prems(2) have "malloc_fresh c \<sigma>" by simp
  with Cons.prems(1) obtain \<sigma>1 s1 ns1 where
    c: "do_call (Ptr sa) c \<sigma> = Some (Inr \<sigma>1)" and h1: "holds \<sigma>1 sa s1 ns1"
    using do_call_holds by blast
  from Cons.prems(2) c have "mallocs_fresh (Ptr sa) cs \<sigma>1" by simp
  from Cons.IH [OF h1 this] c show ?case by simp
qed

text \<open>
  Pushes and pops in any order: as long as no pop comes when the stack holds no
  element, the stack holds as many frames as the pushes outnumber the pops, and
  \<^verbatim>\<open>dynstackGetSize\<close> returns that number modulo \<open>2 ^ 32\<close>.
\<close>

lemma net_depth_holds:
  assumes "net_depth cs n = Some d" and "length ns = n"
    and "holds \<sigma> sa s ns" and "mallocs_fresh (Ptr sa) cs \<sigma>"
  shows "\<exists>\<sigma>' s' ns'. do_calls (Ptr sa) cs \<sigma> = Some (Inr \<sigma>') \<and> holds \<sigma>' sa s' ns' \<and>
           length ns' = d"
  using assms
proof (induction cs n arbitrary: \<sigma> s ns rule: net_depth.induct)
  case (1 n)
  then show ?case by auto
next
  case (2 a e cs n)
  from "2.prems"(4) have fresh: "frames \<sigma> a = None" by simp
  from "2.prems"(3) have st: "stacks \<sigma> sa = Some s" by (simp add: holds_def)
  let ?\<sigma>1 = "\<sigma>\<lparr>frames := (frames \<sigma>)(a \<mapsto> \<lparr>frame_data = e, frame_next = stack_top s\<rparr>),
      stacks := (stacks \<sigma>)(sa \<mapsto> s\<lparr>stack_top := Ptr a, stack_size := stack_size s + 1\<rparr>)\<rparr>"
  have c: "do_call (Ptr sa) (Push (Ptr a) e) \<sigma> = Some (Inr ?\<sigma>1)"
    using st by (simp add: push_eq)
  note h1 = push_holds [OF "2.prems"(3) fresh, of e]
  from "2.prems"(4) c have m: "mallocs_fresh (Ptr sa) cs ?\<sigma>1" by simp
  from "2.prems"(1) have n: "net_depth cs (Suc n) = Some d" by simp
  from "2.prems"(2) have l: "length ((a, e) # ns) = Suc n" by simp
  from "2.IH" [OF n l h1 m] c show ?case by simp
next
  case (3 cs n)
  from "3.prems"(1) obtain n' where len: "n = Suc n'" and n: "net_depth cs n' = Some d"
    by (auto split: nat.splits)
  with "3.prems"(2) obtain b ns' where ns: "ns = b # ns'" "length ns' = n'" by (cases ns) auto
  obtain a e where b: "b = (a, e)" by (cases b)
  from "3.prems"(3) ns b have h: "holds \<sigma> sa s ((a, e) # ns')" by simp
  let ?\<sigma>1 = "\<sigma>\<lparr>stacks := (stacks \<sigma>)(sa \<mapsto>
      s\<lparr>stack_top := head_ptr ns', stack_size := stack_size s - 1\<rparr>),
      frames := (frames \<sigma>)(a := None)\<rparr>"
  from pop_holds [OF h] have c: "do_call (Ptr sa) Pop \<sigma> = Some (Inr ?\<sigma>1)"
    and h1: "holds ?\<sigma>1 sa (s\<lparr>stack_top := head_ptr ns', stack_size := stack_size s - 1\<rparr>) ns'"
    by simp_all
  from "3.prems"(4) c have m: "mallocs_fresh (Ptr sa) cs ?\<sigma>1" by simp
  from "3.IH" [OF len n ns(2) h1 m] c show ?case by simp
qed simp_all

lemma net_depth_count:
  "net_depth cs n = Some d \<Longrightarrow> pops_in cs \<le> n + pushes_in cs \<and> d = n + pushes_in cs - pops_in cs"
proof (induction cs n rule: net_depth.induct)
  case (3 cs n)
  then obtain n' where "n = Suc n'" "net_depth cs n' = Some d"
    by (auto split: nat.splits)
  with "3.IH" show ?case by auto
qed auto

lemma net_depth_push_calls: "net_depth (push_calls aes) n = Some (n + length aes)"
  by (induction aes arbitrary: n) (auto simp: push_calls_def)

lemma pushes_in_push_calls: "pushes_in (push_calls aes) = length aes"
  by (induction aes) (auto simp: push_calls_def)

lemma pops_in_push_calls: "pops_in (push_calls aes) = 0"
  by (induction aes) (auto simp: push_calls_def)

text \<open>
  The pushes first and the pops after them, with the values the calls return: \<open>k\<close>
  pushes whose \<^verbatim>\<open>malloc\<close> succeeded all return \<^verbatim>\<open>true\<close>, and after \<open>j \<le> k\<close> pops
  \<^verbatim>\<open>dynstackGetSize\<close> returns \<open>k - j\<close> modulo \<open>2 ^ 32\<close>.
\<close>

lemma size_after_pushes_then_pops:
  assumes "dynstackNew m deleteFunc printFunc \<sigma>0 = (stack, \<sigma>)" and "stack \<noteq> NULL"
    and "distinct (map fst aes)" and "\<forall>a \<in> fst ` set aes. frames \<sigma>0 a = None"
    and "j \<le> length aes"
  shows "\<exists>\<sigma>1 ds \<sigma>2 n.
           pushes stack (allocs aes) \<sigma> = Inr (replicate (length aes) True, \<sigma>1) \<and>
           pops stack j \<sigma>1 = Inr (ds, \<sigma>2) \<and>
           dynstackGetSize stack \<sigma>2 = Inr n \<and>
           unat n = (length aes - j) mod 2 ^ 32 \<and>
           (length aes - j < 2 ^ 32 \<longrightarrow> unat n = length aes - j) \<and>
           dynstackIsEmpty stack \<sigma>2 = Inr (n = 0) \<and>
           dynstackGetSize NULL \<sigma>2 = Inr 0"
proof -
  from assms(1,2) obtain sa del prt where sa: "stack = Ptr sa" and fr: "frames \<sigma> = frames \<sigma>0"
    and h: "holds \<sigma> sa \<lparr>stack_top = NULL, stack_size = 0, deleteData = del, printData = prt\<rparr> []"
    by (rule new_success)
  have fresh: "frames \<sigma> a = None" if "a \<in> fst ` set aes" for a
    using assms(4) that fr by auto
  from pushes_run [OF h assms(3) fresh] obtain \<sigma>1 s1 where
    p: "pushes (Ptr sa) (allocs aes) \<sigma> = Inr (replicate (length aes) True, \<sigma>1)"
    and "holds \<sigma>1 sa s1 (rev aes @ [])"
    by blast
  then have "holds \<sigma>1 sa s1 (take j (rev aes) @ drop j (rev aes))" by simp
  from pops_run [OF this] obtain \<sigma>2 s2 where
    "pops (Ptr sa) (length (take j (rev aes))) \<sigma>1 = Inr (map snd (take j (rev aes)), \<sigma>2)"
    and h2: "holds \<sigma>2 sa s2 (drop j (rev aes))"
    by blast
  with assms(5) have q: "pops (Ptr sa) j \<sigma>1 = Inr (map snd (take j (rev aes)), \<sigma>2)"
    by simp
  let ?n = "of_nat (length aes - j) :: 32 word"
  from h2 have g: "dynstackGetSize (Ptr sa) \<sigma>2 = Inr ?n"
    by (simp add: size_holds)
  then have e: "dynstackIsEmpty (Ptr sa) \<sigma>2 = Inr (?n = 0)"
    by (simp add: dynstackIsEmpty_def)
  have u: "unat ?n = (length aes - j) mod 2 ^ 32" by (simp add: unat_of_nat)
  then have u': "length aes - j < 2 ^ 32 \<longrightarrow> unat ?n = length aes - j" by simp
  have z: "dynstackGetSize NULL \<sigma>2 = Inr 0" by (simp add: dynstackGetSize_def)
  from p q g u u' e z sa show ?thesis by blast
qed

section \<open>The example memories\<close>

lemma holds_stack0: "holds stack0 0 fresh_stack []"
  by (simp add: holds_def stack0_def fresh_stack_def)

lemma holds_stack3:
  "holds stack3 0 (fresh_stack\<lparr>stack_top := Ptr 13, stack_size := 3\<rparr>)
     [(13, Ptr 3), (12, Ptr 2), (11, Ptr 1)]"
  by (simp add: holds_def stack3_def fresh_stack_def)

lemma fresh_stack3: "frames stack3 14 = None"
  by (simp add: stack3_def)

lemma new_stack0: "dynstackNew (Ptr 0) (Some log_call) (Some render) empty_memory = (Ptr 0, stack0)"
  by (simp add: dynstackNew_def empty_memory_def stack0_def fresh_stack_def)

lemma length_numbered [simp]: "length (numbered n) = n"
  by (simp add: numbered_def)

lemma numbered_Suc: "numbered (Suc n) = numbered n @ [(n, Ptr n)]"
  by (simp add: numbered_def)

lemma fst_numbered: "map fst (numbered n) = [0..<n]"
  by (simp add: numbered_def comp_def)

lemma pushed_0: "pushed 0 = stack0"
  by (simp add: pushed_def stack0_def fresh_stack_def)

lemma pushed_Suc:
  "dynstackPush (Ptr n) (Ptr 0) (Ptr n) (pushed n) = Inr (True, pushed (Suc n))"
proof -
  let ?s = "fresh_stack\<lparr>stack_top := (case n of 0 \<Rightarrow> NULL | Suc i \<Rightarrow> Ptr i),
                          stack_size := of_nat n\<rparr>"
  have st: "stacks (pushed n) 0 = Some ?s" by (simp add: pushed_def)
  have fr: "(frames (pushed n))(n \<mapsto> \<lparr>frame_data = Ptr n, frame_next = stack_top ?s\<rparr>)
      = frames (pushed (Suc n))"
    by (rule ext) (simp add: pushed_def less_Suc_eq)
  have sk: "(stacks (pushed n))(0 \<mapsto> ?s\<lparr>stack_top := Ptr n, stack_size := stack_size ?s + 1\<rparr>)
      = stacks (pushed (Suc n))"
    by (rule ext) (simp add: pushed_def)
  have "pushed n\<lparr>frames := frames (pushed (Suc n)), stacks := stacks (pushed (Suc n))\<rparr>
      = pushed (Suc n)"
    by (simp add: pushed_def)
  with push_eq [OF st, of n "Ptr n"] show ?thesis
    unfolding fr sk by simp
qed

lemma pushed_run:
  "pushes (Ptr 0) (allocs (numbered n)) stack0 = Inr (replicate n True, pushed n)"
proof (induction n)
  case 0
  show ?case by (simp add: numbered_def allocs_def pushed_0)
next
  case (Suc n)
  have "allocs (numbered (Suc n)) = allocs (numbered n) @ [(Ptr n, Ptr n)]"
    by (simp add: numbered_Suc allocs_def)
  with Suc show ?case
    by (simp add: pushes_append pushed_Suc replicate_append_same)
qed

lemma pushed_holds:
  "holds (pushed n) 0
     (fresh_stack\<lparr>stack_top := (case n of 0 \<Rightarrow> NULL | Suc i \<Rightarrow> Ptr i), stack_size := of_nat n\<rparr>)
     (rev (numbered n))"
proof -
  have d: "distinct (map fst (numbered n))" by (simp add: fst_numbered)
  have f: "frames stack0 a = None" if "a \<in> fst ` set (numbered n)" for a
    by (simp add: stack0_def)
  from pushes_run [OF holds_stack0 d f] obtain \<sigma>1 s1 where
    "pushes (Ptr 0) (allocs (numbered n)) stack0 = Inr (replicate (length (numbered n)) True, \<sigma>1)"
    "holds \<sigma>1 0 s1 (rev (numbered n) @ [])"
    by blast
  then have h: "holds (pushed n) 0 s1 (rev (numbered n))"
    by (simp add: pushed_run)
  then have "stacks (pushed n) 0 = Some s1" by (simp add: holds_def)
  then have "s1 = fresh_stack\<lparr>stack_top := (case n of 0 \<Rightarrow> NULL | Suc i \<Rightarrow> Ptr i),
      stack_size := of_nat n\<rparr>"
    by (simp add: pushed_def)
  with h show ?thesis by simp
qed

lemma fresh_push_calls_from:
  "mallocs_fresh (Ptr 0) (push_calls (map (\<lambda>i. (i, Ptr i)) [i..<n])) (pushed i)"
proof (induction "n - i" arbitrary: i)
  case 0
  then show ?case by (simp add: push_calls_def)
next
  case (Suc k)
  then have lt: "i < n" and k: "k = n - Suc i" by simp_all
  from lt have "[i..<n] = i # [Suc i..<n]" by (rule upt_conv_Cons)
  moreover have "frames (pushed i) i = None" by (simp add: pushed_def)
  moreover note Suc.hyps(1) [OF k] pushed_Suc [of i]
  ultimately show ?case by (simp add: push_calls_def)
qed

lemma fresh_push_calls: "mallocs_fresh (Ptr 0) (push_calls (numbered n)) stack0"
  using fresh_push_calls_from [of 0 n] by (simp add: numbered_def pushed_0)

section \<open>The claims\<close>

subsection \<open>C1\<close>

text \<open>
  Claim C1. On a stack (holding whatever frames \<open>ns\<close>), pushing the elements
  \<open>e1, \<dots>, en\<close>, each into a block \<^verbatim>\<open>malloc\<close> had not given out, succeeds \<open>n\<close> times, and
  \<open>n\<close> pops then return \<open>en, \<dots>, e1\<close>: the very pointers that were pushed. After them
  the stack holds \<open>ns\<close> again, and its size and emptiness are what they were.
\<close>

theorem lifo:
  assumes "holds \<sigma> sa s ns" and "distinct (map fst aes)"
    and "\<forall>a \<in> fst ` set aes. frames \<sigma> a = None"
  shows "\<exists>\<sigma>1 \<sigma>2 s2.
           pushes (Ptr sa) (allocs aes) \<sigma> = Inr (replicate (length aes) True, \<sigma>1) \<and>
           pops (Ptr sa) (length aes) \<sigma>1 = Inr (rev (map snd aes), \<sigma>2) \<and>
           holds \<sigma>2 sa s2 ns \<and>
           dynstackGetSize (Ptr sa) \<sigma>2 = dynstackGetSize (Ptr sa) \<sigma> \<and>
           dynstackIsEmpty (Ptr sa) \<sigma>2 = dynstackIsEmpty (Ptr sa) \<sigma>"
proof -
  have fresh: "frames \<sigma> a = None" if "a \<in> fst ` set aes" for a
    using assms(3) that by (rule bspec)
  from pushes_run [OF assms(1,2) fresh] obtain \<sigma>1 s1 where
    p: "pushes (Ptr sa) (allocs aes) \<sigma> = Inr (replicate (length aes) True, \<sigma>1)"
    and h1: "holds \<sigma>1 sa s1 (rev aes @ ns)"
    by blast
  from pops_run [OF h1] obtain \<sigma>2 s2 where
    q: "pops (Ptr sa) (length (rev aes)) \<sigma>1 = Inr (map snd (rev aes), \<sigma>2)"
    and h2: "holds \<sigma>2 sa s2 ns"
    by blast
  from q have q': "pops (Ptr sa) (length aes) \<sigma>1 = Inr (rev (map snd aes), \<sigma>2)"
    by (simp add: rev_map)
  from h2 assms(1) have g: "dynstackGetSize (Ptr sa) \<sigma>2 = dynstackGetSize (Ptr sa) \<sigma>"
    by (simp add: size_holds)
  then have "dynstackIsEmpty (Ptr sa) \<sigma>2 = dynstackIsEmpty (Ptr sa) \<sigma>"
    by (simp add: dynstackIsEmpty_def)
  with p q' h2 g show ?thesis by blast
qed

theorem lifo_witness:
  "\<exists>\<sigma>1 \<sigma>2 s2.
     pushes (Ptr 0) (allocs [(11, Ptr 1), (12, Ptr 2), (13, Ptr 3)]) stack0 =
       Inr ([True, True, True], \<sigma>1) \<and>
     pops (Ptr 0) 3 \<sigma>1 = Inr ([Ptr 3, Ptr 2, Ptr 1], \<sigma>2) \<and>
     holds \<sigma>2 0 s2 [] \<and>
     dynstackGetSize (Ptr 0) \<sigma>2 = dynstackGetSize (Ptr 0) stack0 \<and>
     dynstackIsEmpty (Ptr 0) \<sigma>2 = dynstackIsEmpty (Ptr 0) stack0"
proof -
  have "distinct (map fst [(11 :: nat, Ptr 1), (12, Ptr 2), (13, Ptr 3)])"
    by simp
  moreover have "\<forall>a \<in> fst ` set [(11 :: nat, Ptr 1), (12, Ptr 2), (13, Ptr 3)].
      frames stack0 a = None"
    by (simp add: stack0_def)
  ultimately show ?thesis
    using lifo [OF holds_stack0, of "[(11, Ptr 1), (12, Ptr 2), (13, Ptr 3)]"]
    by (simp add: numeral_3_eq_3)
qed

subsection \<open>C2\<close>

text \<open>
  Claim C2, where the code departs from it. The claim has the function given to
  \<^verbatim>\<open>dynstackMap\<close> receive each frame; the loop calls \<^verbatim>\<open>func(cur->data)\<close>. On the
  stack whose frames 13, 12, 11 hold the elements \<open>Ptr 3\<close>, \<open>Ptr 2\<close>, \<open>Ptr 1\<close>, the
  function is called once per frame, from the top down, with the elements
  \<open>Ptr 3\<close>, \<open>Ptr 2\<close>, \<open>Ptr 1\<close>, and never with a frame.
\<close>

theorem map_passes_data:
  "dynstackMap (Ptr 0) log_call stack3 = Some (Inr (stack3\<lparr>world := [Ptr 3, Ptr 2, Ptr 1]\<rparr>))"
proof -
  have "dynstackMap (Ptr 0) log_call stack3 =
      Some (Inr (stack3\<lparr>world :=
        fold log_call (map snd [(13 :: nat, Ptr 3), (12, Ptr 2), (11, Ptr 1)]) (world stack3)\<rparr>))"
    using map_holds [OF holds_stack3, of log_call] by simp
  then show ?thesis by (simp add: log_call_def stack3_def)
qed

subsection \<open>C3\<close>

text \<open>
  Claim C3. On a stack holding the elements \<open>A\<close>, \<open>B\<close>, \<open>C\<close> from the top down,
  \<^verbatim>\<open>dynstackToString\<close>, when its two \<^verbatim>\<open>realloc\<close>s succeed, returns the rendering of
  \<open>A\<close>, a line break, the rendering of \<open>B\<close>, a line break, and the rendering of \<open>C\<close>,
  with nothing after it; on a stack holding no frame, when the one-byte \<^verbatim>\<open>malloc\<close>
  succeeds, it returns the empty string. (The code tests neither allocation: see
  \<open>toString_realloc_fails\<close> and \<open>toString_malloc_fails\<close>.)
\<close>

theorem toString_three_and_empty:
  assumes "holds \<sigma> sa s [(a1, A), (a2, B), (a3, C)]" and "rs 0 \<noteq> NULL" and "rs 1 \<noteq> NULL"
    and "holds \<tau> ta t []" and "m' \<noteq> NULL"
  shows "dynstackToString m rs (Ptr sa) \<sigma> =
           Some (Inr (Some (printData s A (world \<sigma>) @ [CHR 0x0A] @
                            printData s B (world \<sigma>) @ [CHR 0x0A] @
                            printData s C (world \<sigma>)))) \<and>
         dynstackToString m' rs' (Ptr ta) \<tau> = Some (Inr (Some []))"
proof
  from assms(1) have nz: "stack_size s \<noteq> 0" by (simp add: holds_def)
  have r: "rs i \<noteq> NULL" if "i < length [(a1, A), (a2, B), (a3, C)] - 1" for i
    using that assms(2,3) by (cases i) auto
  from toString_holds [OF assms(1) _ _ r, of m] nz
  show "dynstackToString m rs (Ptr sa) \<sigma> =
           Some (Inr (Some (printData s A (world \<sigma>) @ [CHR 0x0A] @
                            printData s B (world \<sigma>) @ [CHR 0x0A] @
                            printData s C (world \<sigma>))))"
    by simp
  from toString_holds [OF assms(4), of m' rs'] assms(5)
  show "dynstackToString m' rs' (Ptr ta) \<tau> = Some (Inr (Some []))"
    by simp
qed

theorem toString_three_and_empty_witness:
  "dynstackToString (Ptr 20) (\<lambda>i. Ptr 20) (Ptr 0) stack3 =
     Some (Inr (Some (''|||'' @ [CHR 0x0A] @ ''||'' @ [CHR 0x0A] @ ''|''))) \<and>
   dynstackToString (Ptr 20) (\<lambda>i. Ptr 20) (Ptr 0) stack0 = Some (Inr (Some []))"
proof -
  have "(\<lambda>i :: nat. Ptr 20) 0 \<noteq> NULL" and "(\<lambda>i :: nat. Ptr 20) 1 \<noteq> NULL"
    and "Ptr 20 \<noteq> NULL"
    by simp_all
  from toString_three_and_empty [OF holds_stack3 this(1,2) holds_stack0 this(3),
      of "Ptr 20" "\<lambda>i. Ptr 20"]
  show ?thesis
    by (simp add: fresh_stack_def render_def stack3_def numeral_3_eq_3 numeral_2_eq_2)
qed

subsection \<open>C4\<close>

text \<open>
  Claim C4. \<^verbatim>\<open>dynstackPush\<close> returns \<^verbatim>\<open>false\<close> and leaves the memory as it was when
  the stack pointer is \<^verbatim>\<open>NULL\<close>, and when \<^verbatim>\<open>malloc\<close> returned \<^verbatim>\<open>NULL\<close> (whatever
  the stack pointer is). Otherwise, on a stack holding \<open>ns\<close> and with the fresh block
  \<open>a\<close>, it returns \<^verbatim>\<open>true\<close>; the frame at \<open>a\<close> holds the element and links to the old
  top; \<^verbatim>\<open>top\<close> is \<open>a\<close>; \<^verbatim>\<open>size\<close> is one more (as an \<^verbatim>\<open>unsigned int\<close>); nothing
  else changes, and the stack holds the new frame above \<open>ns\<close>.
\<close>

theorem push_contract:
  assumes "holds \<sigma> sa s ns" and "frames \<sigma> a = None"
  shows "dynstackPush m NULL d \<sigma> = Inr (False, \<sigma>) \<and>
         dynstackPush NULL stack d \<sigma> = Inr (False, \<sigma>) \<and>
         dynstackPush (Ptr a) (Ptr sa) d \<sigma> =
           Inr (True,
                \<sigma>\<lparr>frames := (frames \<sigma>)(a \<mapsto> \<lparr>frame_data = d, frame_next = stack_top s\<rparr>),
                  stacks := (stacks \<sigma>)(sa \<mapsto>
                    s\<lparr>stack_top := Ptr a, stack_size := stack_size s + 1\<rparr>)\<rparr>) \<and>
         holds
           (\<sigma>\<lparr>frames := (frames \<sigma>)(a \<mapsto> \<lparr>frame_data = d, frame_next = stack_top s\<rparr>),
              stacks := (stacks \<sigma>)(sa \<mapsto>
                s\<lparr>stack_top := Ptr a, stack_size := stack_size s + 1\<rparr>)\<rparr>)
           sa (s\<lparr>stack_top := Ptr a, stack_size := stack_size s + 1\<rparr>) ((a, d) # ns)"
proof (intro conjI)
  show "dynstackPush m NULL d \<sigma> = Inr (False, \<sigma>)"
    by (simp add: dynstackPush_def)
  show "dynstackPush NULL stack d \<sigma> = Inr (False, \<sigma>)"
    by (rule push_fail)
  from assms(1) have "stacks \<sigma> sa = Some s" by (simp add: holds_def)
  then show "dynstackPush (Ptr a) (Ptr sa) d \<sigma> =
           Inr (True,
                \<sigma>\<lparr>frames := (frames \<sigma>)(a \<mapsto> \<lparr>frame_data = d, frame_next = stack_top s\<rparr>),
                  stacks := (stacks \<sigma>)(sa \<mapsto>
                    s\<lparr>stack_top := Ptr a, stack_size := stack_size s + 1\<rparr>)\<rparr>)"
    by (rule push_eq)
  from assms show "holds
           (\<sigma>\<lparr>frames := (frames \<sigma>)(a \<mapsto> \<lparr>frame_data = d, frame_next = stack_top s\<rparr>),
              stacks := (stacks \<sigma>)(sa \<mapsto>
                s\<lparr>stack_top := Ptr a, stack_size := stack_size s + 1\<rparr>)\<rparr>)
           sa (s\<lparr>stack_top := Ptr a, stack_size := stack_size s + 1\<rparr>) ((a, d) # ns)"
    by (rule push_holds)
qed

theorem push_contract_witness:
  "dynstackPush (Ptr 14) NULL (Ptr 4) stack3 = Inr (False, stack3) \<and>
   dynstackPush NULL (Ptr 0) (Ptr 4) stack3 = Inr (False, stack3) \<and>
   dynstackPush (Ptr 14) (Ptr 0) (Ptr 4) stack3 =
     Inr (True,
          stack3\<lparr>frames := (frames stack3)(14 \<mapsto> \<lparr>frame_data = Ptr 4, frame_next = Ptr 13\<rparr>),
            stacks := (stacks stack3)(0 \<mapsto>
              fresh_stack\<lparr>stack_top := Ptr 14, stack_size := 4\<rparr>)\<rparr>) \<and>
   holds
     (stack3\<lparr>frames := (frames stack3)(14 \<mapsto> \<lparr>frame_data = Ptr 4, frame_next = Ptr 13\<rparr>),
        stacks := (stacks stack3)(0 \<mapsto>
          fresh_stack\<lparr>stack_top := Ptr 14, stack_size := 4\<rparr>)\<rparr>)
     0 (fresh_stack\<lparr>stack_top := Ptr 14, stack_size := 4\<rparr>)
     [(14, Ptr 4), (13, Ptr 3), (12, Ptr 2), (11, Ptr 1)]"
  using push_contract [OF holds_stack3 fresh_stack3, of "Ptr 14" "Ptr 4" "Ptr 0"]
  by simp

subsection \<open>C5\<close>

text \<open>
  Claim C5. \<^verbatim>\<open>dynstackPop\<close> returns \<^verbatim>\<open>NULL\<close> and leaves the memory as it was when the
  stack pointer is \<^verbatim>\<open>NULL\<close> and when the stack holds no frame. On a stack whose top
  frame \<open>a\<close> holds \<open>d\<close> above the frames \<open>ns\<close>, it returns \<open>d\<close>; \<^verbatim>\<open>top\<close> is the next
  frame; \<^verbatim>\<open>size\<close> is one less; the block \<open>a\<close> is freed; the world, where the element
  lives, is untouched (\<^verbatim>\<open>deleteData\<close> is not called); and the stack holds \<open>ns\<close>.
\<close>

theorem pop_contract:
  assumes "holds \<sigma> sa s ((a, d) # ns)" and "holds \<tau> ta t []"
  shows "dynstackPop NULL \<sigma> = Inr (NULL, \<sigma>) \<and>
         dynstackPop (Ptr ta) \<tau> = Inr (NULL, \<tau>) \<and>
         dynstackPop (Ptr sa) \<sigma> =
           Inr (d,
                \<sigma>\<lparr>stacks := (stacks \<sigma>)(sa \<mapsto>
                    s\<lparr>stack_top := head_ptr ns, stack_size := stack_size s - 1\<rparr>),
                  frames := (frames \<sigma>)(a := None)\<rparr>) \<and>
         holds
           (\<sigma>\<lparr>stacks := (stacks \<sigma>)(sa \<mapsto>
               s\<lparr>stack_top := head_ptr ns, stack_size := stack_size s - 1\<rparr>),
              frames := (frames \<sigma>)(a := None)\<rparr>)
           sa (s\<lparr>stack_top := head_ptr ns, stack_size := stack_size s - 1\<rparr>) ns"
proof (intro conjI)
  show "dynstackPop NULL \<sigma> = Inr (NULL, \<sigma>)"
    by (simp add: dynstackPop_def)
  from assms(2) show "dynstackPop (Ptr ta) \<tau> = Inr (NULL, \<tau>)"
    by (rule pop_empty)
  from assms(1) show "dynstackPop (Ptr sa) \<sigma> =
           Inr (d,
                \<sigma>\<lparr>stacks := (stacks \<sigma>)(sa \<mapsto>
                    s\<lparr>stack_top := head_ptr ns, stack_size := stack_size s - 1\<rparr>),
                  frames := (frames \<sigma>)(a := None)\<rparr>)"
    by (rule pop_holds)
  from assms(1) show "holds
           (\<sigma>\<lparr>stacks := (stacks \<sigma>)(sa \<mapsto>
               s\<lparr>stack_top := head_ptr ns, stack_size := stack_size s - 1\<rparr>),
              frames := (frames \<sigma>)(a := None)\<rparr>)
           sa (s\<lparr>stack_top := head_ptr ns, stack_size := stack_size s - 1\<rparr>) ns"
    by (rule pop_holds)
qed

theorem pop_contract_witness:
  "dynstackPop NULL stack3 = Inr (NULL, stack3) \<and>
   dynstackPop (Ptr 0) stack0 = Inr (NULL, stack0) \<and>
   dynstackPop (Ptr 0) stack3 =
     Inr (Ptr 3,
          stack3\<lparr>stacks := (stacks stack3)(0 \<mapsto>
              fresh_stack\<lparr>stack_top := Ptr 12, stack_size := 2\<rparr>),
            frames := (frames stack3)(13 := None)\<rparr>) \<and>
   holds
     (stack3\<lparr>stacks := (stacks stack3)(0 \<mapsto>
         fresh_stack\<lparr>stack_top := Ptr 12, stack_size := 2\<rparr>),
        frames := (frames stack3)(13 := None)\<rparr>)
     0 (fresh_stack\<lparr>stack_top := Ptr 12, stack_size := 2\<rparr>) [(12, Ptr 2), (11, Ptr 1)]"
  using pop_contract [OF holds_stack3 holds_stack0]
  by (simp add: head_ptr_def)

subsection \<open>C6\<close>

text \<open>
  Claim C6, as the code has it. From a new stack, take a run of \<open>k\<close> pushes whose
  \<^verbatim>\<open>malloc\<close> succeeded and \<open>j\<close> pops, in any order in which no pop comes when the stack
  holds no element (as when \<open>j \<le> k\<close> pops follow the \<open>k\<close> pushes). Then \<open>j \<le> k\<close>,
  \<^verbatim>\<open>dynstackGetSize\<close> returns \<open>k - j\<close> modulo \<open>2 ^ 32\<close> (so \<open>k - j\<close> itself when
  \<open>k - j < 2 ^ 32\<close>), \<^verbatim>\<open>dynstackIsEmpty\<close> is true exactly when that returned size is 0,
  and on the \<^verbatim>\<open>NULL\<close> stack pointer \<^verbatim>\<open>dynstackGetSize\<close> returns 0.
\<close>

theorem size_after_pushes_and_pops:
  assumes "dynstackNew m deleteFunc printFunc \<sigma>0 = (stack, \<sigma>)" and "stack \<noteq> NULL"
    and "mallocs_fresh stack cs \<sigma>" and "net_depth cs 0 = Some d"
  shows "\<exists>\<sigma>' n.
           do_calls stack cs \<sigma> = Some (Inr \<sigma>') \<and>
           pops_in cs \<le> pushes_in cs \<and>
           dynstackGetSize stack \<sigma>' = Inr n \<and>
           unat n = (pushes_in cs - pops_in cs) mod 2 ^ 32 \<and>
           (pushes_in cs - pops_in cs < 2 ^ 32 \<longrightarrow> unat n = pushes_in cs - pops_in cs) \<and>
           dynstackIsEmpty stack \<sigma>' = Inr (n = 0) \<and>
           dynstackGetSize NULL \<sigma>' = Inr 0"
proof -
  from assms(1,2) obtain sa del prt where sa: "stack = Ptr sa"
    and h: "holds \<sigma> sa \<lparr>stack_top = NULL, stack_size = 0, deleteData = del, printData = prt\<rparr> []"
    by (rule new_success)
  from assms(3) sa have m: "mallocs_fresh (Ptr sa) cs \<sigma>" by simp
  have "length ([] :: (nat \<times> ptr) list) = 0" by simp
  from net_depth_holds [OF assms(4) this h m] obtain \<sigma>' s' ns' where
    r: "do_calls (Ptr sa) cs \<sigma> = Some (Inr \<sigma>')" and h': "holds \<sigma>' sa s' ns'"
    and l: "length ns' = d"
    by blast
  from net_depth_count [OF assms(4)] have le: "pops_in cs \<le> pushes_in cs"
    and d: "d = pushes_in cs - pops_in cs"
    by simp_all
  let ?n = "of_nat (pushes_in cs - pops_in cs) :: 32 word"
  from h' l d have g: "dynstackGetSize (Ptr sa) \<sigma>' = Inr ?n"
    by (simp add: size_holds)
  then have e: "dynstackIsEmpty (Ptr sa) \<sigma>' = Inr (?n = 0)"
    by (simp add: dynstackIsEmpty_def)
  have u: "unat ?n = (pushes_in cs - pops_in cs) mod 2 ^ 32" by (simp add: unat_of_nat)
  then have u': "pushes_in cs - pops_in cs < 2 ^ 32 \<longrightarrow> unat ?n = pushes_in cs - pops_in cs"
    by simp
  have z: "dynstackGetSize NULL \<sigma>' = Inr 0" by (simp add: dynstackGetSize_def)
  from r le g u u' e z sa show ?thesis by blast
qed

theorem size_after_pushes_and_pops_witness:
  "\<exists>\<sigma>' n.
     do_calls (Ptr 0)
       [Push (Ptr 11) (Ptr 1), Push (Ptr 12) (Ptr 2), Pop, Push (Ptr 12) (Ptr 3), Pop]
       stack0 = Some (Inr \<sigma>') \<and>
     dynstackGetSize (Ptr 0) \<sigma>' = Inr n \<and>
     unat n = 1 \<and>
     dynstackIsEmpty (Ptr 0) \<sigma>' = Inr (n = 0) \<and>
     dynstackGetSize NULL \<sigma>' = Inr 0"
proof -
  have "mallocs_fresh (Ptr 0)
       [Push (Ptr 11) (Ptr 1), Push (Ptr 12) (Ptr 2), Pop, Push (Ptr 12) (Ptr 3), Pop]
       stack0"
    by (simp add: stack0_def fresh_stack_def dynstackPush_def dynstackFrameNew_def
        dynstackPop_def split: option.splits sum.splits)
  moreover have "net_depth
       [Push (Ptr 11) (Ptr 1), Push (Ptr 12) (Ptr 2), Pop, Push (Ptr 12) (Ptr 3), Pop :: ptr list call]
       0 = Some 1"
    by simp
  moreover have "Ptr 0 \<noteq> NULL" by simp
  ultimately show ?thesis
    using size_after_pushes_and_pops [OF new_stack0,
        of "[Push (Ptr 11) (Ptr 1), Push (Ptr 12) (Ptr 2), Pop, Push (Ptr 12) (Ptr 3), Pop]" 1]
    by simp
qed

text \<open>
  Counterexamples to claim C6 as stated, on the new stack \<open>stack0\<close>. Where the counter
  wraps: after \<open>k = 2 ^ 32 = 4294967296\<close> successful pushes and \<open>j = 0\<close> pops,
  \<^verbatim>\<open>dynstackGetSize\<close> returns 0, not 4294967296, and \<^verbatim>\<open>dynstackIsEmpty\<close> is true. And where
  a pop comes too early: after a pop and then a successful push, \<open>k = j = 1\<close>, and
  \<^verbatim>\<open>dynstackGetSize\<close> returns 1, not 0.
\<close>

theorem size_is_not_pushes_less_pops:
  "dynstackNew (Ptr 0) (Some log_call) (Some render) empty_memory = (Ptr 0, stack0) \<and>
   mallocs_fresh (Ptr 0) (push_calls (numbered 4294967296)) stack0 \<and>
   do_calls (Ptr 0) (push_calls (numbered 4294967296)) stack0 = Some (Inr (pushed 4294967296)) \<and>
   pushes_in (push_calls (numbered 4294967296) :: ptr list call list) = 4294967296 \<and>
   pops_in (push_calls (numbered 4294967296) :: ptr list call list) = 0 \<and>
   dynstackGetSize (Ptr 0) (pushed 4294967296) = Inr 0 \<and>
   dynstackIsEmpty (Ptr 0) (pushed 4294967296) = Inr True \<and>
   do_calls (Ptr 0) [Pop, Push (Ptr 0) (Ptr 0)] stack0 = Some (Inr (pushed 1)) \<and>
   pushes_in [Pop, Push (Ptr 0) (Ptr 0) :: ptr list call] = 1 \<and>
   pops_in [Pop, Push (Ptr 0) (Ptr 0) :: ptr list call] = 1 \<and>
   dynstackGetSize (Ptr 0) (pushed 1) = Inr 1"
proof (intro conjI)
  show "dynstackNew (Ptr 0) (Some log_call) (Some render) empty_memory = (Ptr 0, stack0)"
    by (rule new_stack0)
  show "mallocs_fresh (Ptr 0) (push_calls (numbered 4294967296)) stack0"
    by (rule fresh_push_calls)
  show "do_calls (Ptr 0) (push_calls (numbered 4294967296)) stack0 =
      Some (Inr (pushed 4294967296))"
    using pushed_run by (rule do_calls_push_calls)
  show "pushes_in (push_calls (numbered 4294967296) :: ptr list call list) = 4294967296"
    by (simp only: pushes_in_push_calls length_numbered)
  show "pops_in (push_calls (numbered 4294967296) :: ptr list call list) = 0"
    by (rule pops_in_push_calls)
  have "dynstackGetSize (Ptr 0) (pushed 4294967296) = Inr (of_nat 4294967296)"
    using pushed_holds [of 4294967296] by (simp only: size_holds length_rev length_numbered)
  then show g: "dynstackGetSize (Ptr 0) (pushed 4294967296) = Inr 0" by simp
  then show "dynstackIsEmpty (Ptr 0) (pushed 4294967296) = Inr True"
    by (simp add: dynstackIsEmpty_def)
  have "dynstackPop (Ptr 0) stack0 = Inr (NULL, stack0)"
    using holds_stack0 by (rule pop_empty)
  moreover have "dynstackPush (Ptr 0) (Ptr 0) (Ptr 0) stack0 = Inr (True, pushed 1)"
    using pushed_Suc [of 0] by (simp add: pushed_0)
  ultimately show "do_calls (Ptr 0) [Pop, Push (Ptr 0) (Ptr 0)] stack0 = Some (Inr (pushed 1))"
    by simp
  show "pushes_in [Pop, Push (Ptr 0) (Ptr 0) :: ptr list call] = 1"
    by simp
  show "pops_in [Pop, Push (Ptr 0) (Ptr 0) :: ptr list call] = 1"
    by simp
  show "dynstackGetSize (Ptr 0) (pushed 1) = Inr 1"
    by (simp add: dynstackGetSize_def pushed_def)
qed

subsection \<open>C7\<close>

text \<open>
  Claim C7, as the code has it. On a stack that holds fewer than \<open>2 ^ 32\<close> frames,
  \<^verbatim>\<open>dynstackClear\<close> returns; it leaves \<^verbatim>\<open>top = NULL\<close> and \<^verbatim>\<open>size = 0\<close>; every frame is
  freed; and the world is the one reached by calling \<^verbatim>\<open>deleteData\<close> on the elements
  from the top down, once each. On the \<^verbatim>\<open>NULL\<close> stack pointer it changes nothing.
\<close>

theorem clear_releases_each_once:
  assumes "holds \<sigma> sa s ns" and "length ns < 2 ^ 32"
  shows "dynstackClear (Ptr sa) \<sigma> =
           Some (Inr (\<sigma>\<lparr>stacks := (stacks \<sigma>)(sa \<mapsto> s\<lparr>stack_top := NULL, stack_size := 0\<rparr>),
                        frames := (\<lambda>b. if b \<in> fst ` set ns then None else frames \<sigma> b),
                        world := fold (deleteData s) (map snd ns) (world \<sigma>)\<rparr>)) \<and>
         holds (\<sigma>\<lparr>stacks := (stacks \<sigma>)(sa \<mapsto> s\<lparr>stack_top := NULL, stack_size := 0\<rparr>),
                  frames := (\<lambda>b. if b \<in> fst ` set ns then None else frames \<sigma> b),
                  world := fold (deleteData s) (map snd ns) (world \<sigma>)\<rparr>)
           sa (s\<lparr>stack_top := NULL, stack_size := 0\<rparr>) [] \<and>
         dynstackClear NULL \<sigma> = Some (Inr \<sigma>)"
proof -
  from assms have k: "unat (stack_size s) = length ns"
    by (simp add: holds_def unat_of_nat)
  have t: "take (length ns) ns = ns" and d: "drop (length ns) ns = []"
    and hd: "head_ptr [] = NULL"
    by (simp_all add: head_ptr_def)
  note run = clear_loop_run [OF assms(1) k, THEN conjunct2, unfolded t d hd]
  note fin = clear_final_holds [OF assms(1) k,
      of "fold (deleteData s) (map snd ns) (world \<sigma>)", unfolded t d hd]
  have c: "dynstackClear (Ptr sa) \<sigma> = dynstackClear_loop (Ptr sa) \<sigma>"
    and n: "dynstackClear NULL \<sigma> = Some (Inr \<sigma>)"
    by (simp_all add: dynstackClear_def)
  from run c have "dynstackClear (Ptr sa) \<sigma> =
           Some (Inr (\<sigma>\<lparr>stacks := (stacks \<sigma>)(sa \<mapsto> s\<lparr>stack_top := NULL, stack_size := 0\<rparr>),
                        frames := (\<lambda>b. if b \<in> fst ` set ns then None else frames \<sigma> b),
                        world := fold (deleteData s) (map snd ns) (world \<sigma>)\<rparr>))"
    by (simp only:)
  with fin n show ?thesis by (intro conjI)
qed

theorem clear_releases_each_once_witness:
  "dynstackClear (Ptr 0) stack3 =
     Some (Inr (stack3\<lparr>stacks := [0 \<mapsto> fresh_stack],
                  frames := (\<lambda>b. if b \<in> {13, 12, 11} then None else frames stack3 b),
                  world := [Ptr 3, Ptr 2, Ptr 1]\<rparr>)) \<and>
   dynstackClear NULL stack3 = Some (Inr stack3)"
proof -
  have "length [(13 :: nat, Ptr 3), (12 :: nat, Ptr 2), (11 :: nat, Ptr 1)] < 2 ^ 32" by simp
  from clear_releases_each_once [OF holds_stack3 this]
  show ?thesis by (simp add: stack3_def fresh_stack_def log_call_def)
qed

text \<open>
  Counterexample to claim C7 as stated, where the counter wraps. The stack reached by 4294967296
  pushes has \<^verbatim>\<open>size = 0\<close>, so the loop of \<^verbatim>\<open>dynstackClear\<close> does not run: the memory is
  unchanged, \<^verbatim>\<open>deleteData\<close> has been called on nothing (the log is empty), and the
  stack still has a top element.
\<close>

theorem clear_skips_wrapped_stack:
  "pushes (Ptr 0) (allocs (numbered 4294967296)) stack0 =
     Inr (replicate 4294967296 True, pushed 4294967296) \<and>
   dynstackClear (Ptr 0) (pushed 4294967296) = Some (Inr (pushed 4294967296)) \<and>
   world (pushed 4294967296) = [] \<and>
   dynstackPeek (Ptr 0) (pushed 4294967296) = Inr (Ptr 4294967295)"
proof (intro conjI)
  show "pushes (Ptr 0) (allocs (numbered 4294967296)) stack0 =
     Inr (replicate 4294967296 True, pushed 4294967296)"
    by (rule pushed_run)
  have "dynstackIsEmpty (Ptr 0) (pushed 4294967296) = Inr True"
    by (simp add: dynstackIsEmpty_def dynstackGetSize_def pushed_def)
  then show "dynstackClear (Ptr 0) (pushed 4294967296) = Some (Inr (pushed 4294967296))"
    by (simp add: dynstackClear_def dynstackClear_loop.simps [of "Ptr 0"])
  show "world (pushed 4294967296) = []"
    by (simp add: pushed_def)
  show "dynstackPeek (Ptr 0) (pushed 4294967296) = Inr (Ptr 4294967295)"
    by (simp add: dynstackPeek_def pushed_def)
qed

subsection \<open>C8\<close>

text \<open>
  Claim C8. On a stack that holds no frame \<^verbatim>\<open>dynstackTopToString\<close>, when its
  one-byte \<^verbatim>\<open>malloc\<close> succeeds, returns the empty string; on the \<^verbatim>\<open>NULL\<close> stack
  pointer it returns \<^verbatim>\<open>NULL\<close> (and allocates nothing); and the two results differ.
  (The code does not test the \<^verbatim>\<open>malloc\<close>: see \<open>topToString_malloc_fails\<close>.)
\<close>

theorem topToString_empty_or_absent:
  assumes "holds \<tau> ta t []" and "m \<noteq> NULL"
  shows "dynstackTopToString m (Ptr ta) \<tau> = Inr (Some []) \<and>
         dynstackTopToString m' NULL \<sigma> = Inr None \<and>
         dynstackTopToString m (Ptr ta) \<tau> \<noteq> dynstackTopToString m' NULL \<sigma>"
proof -
  from assms(2) obtain b where "m = Ptr b" by (cases m) auto
  with assms(1) show ?thesis
    by (simp add: holds_def dynstackTopToString_def dynstackIsEmpty_def dynstackGetSize_def)
qed

theorem topToString_empty_or_absent_witness:
  "dynstackTopToString (Ptr 20) (Ptr 0) stack0 = Inr (Some []) \<and>
   dynstackTopToString (Ptr 20) NULL stack0 = Inr None \<and>
   dynstackTopToString (Ptr 20) (Ptr 0) stack0 \<noteq> dynstackTopToString (Ptr 20) NULL stack0"
proof -
  have "Ptr 20 \<noteq> NULL" by simp
  from topToString_empty_or_absent [OF holds_stack0 this] show ?thesis .
qed

subsection \<open>C9\<close>

text \<open>
  Claim C9, as the code has it. After a successful \<^verbatim>\<open>dynstackNew\<close> and any run of
  push, pop, peek, size, isEmpty, clear, toString and map on that stack (\<^verbatim>\<open>malloc\<close>
  never returning a block still allocated), every call has returned without a fault,
  the frames reachable from \<^verbatim>\<open>top\<close> form a chain \<open>ns\<close> that ends in \<^verbatim>\<open>NULL\<close>,
  \<^verbatim>\<open>size\<close> is their number modulo \<open>2 ^ 32\<close>, and \<^verbatim>\<open>top\<close> is \<^verbatim>\<open>NULL\<close> exactly when
  there is no frame. While fewer than \<open>2 ^ 32\<close> frames are linked, \<^verbatim>\<open>size\<close> is their
  number and \<^verbatim>\<open>top\<close> is \<^verbatim>\<open>NULL\<close> exactly when \<^verbatim>\<open>size\<close> is 0.
\<close>

theorem size_counts_frames:
  assumes "dynstackNew m deleteFunc printFunc \<sigma>0 = (stack, \<sigma>)" and "stack \<noteq> NULL"
    and "mallocs_fresh stack cs \<sigma>"
  shows "\<exists>\<sigma>' sa s ns.
           do_calls stack cs \<sigma> = Some (Inr \<sigma>') \<and> stack = Ptr sa \<and>
           stacks \<sigma>' sa = Some s \<and> chain (frames \<sigma>') (stack_top s) ns \<and>
           unat (stack_size s) = length ns mod 2 ^ 32 \<and>
           (stack_top s = NULL) = (length ns = 0) \<and>
           (length ns < 2 ^ 32 \<longrightarrow>
              unat (stack_size s) = length ns \<and> (stack_top s = NULL) = (stack_size s = 0))"
proof -
  from assms(1,2) obtain sa del prt where sa: "stack = Ptr sa"
    and h: "holds \<sigma> sa \<lparr>stack_top = NULL, stack_size = 0, deleteData = del, printData = prt\<rparr> []"
    by (rule new_success)
  from assms(3) sa have "mallocs_fresh (Ptr sa) cs \<sigma>" by simp
  from do_calls_holds [OF h this] obtain \<sigma>' s ns where
    r: "do_calls (Ptr sa) cs \<sigma> = Some (Inr \<sigma>')" and h': "holds \<sigma>' sa s ns"
    by blast
  from h' have st: "stacks \<sigma>' sa = Some s" and c: "chain (frames \<sigma>') (stack_top s) ns"
    and n: "stack_size s = of_nat (length ns)"
    by (simp_all add: holds_def)
  from n have u: "unat (stack_size s) = length ns mod 2 ^ 32"
    by (simp add: unat_of_nat)
  from c have t: "(stack_top s = NULL) = (length ns = 0)"
    by (cases ns) auto
  have b: "length ns < 2 ^ 32 \<longrightarrow>
      unat (stack_size s) = length ns \<and> (stack_top s = NULL) = (stack_size s = 0)"
  proof
    assume lt: "length ns < 2 ^ 32"
    with u have "unat (stack_size s) = length ns" by simp
    moreover from lt n t have "(stack_top s = NULL) = (stack_size s = 0)"
      by (simp add: size_zero_iff)
    ultimately show "unat (stack_size s) = length ns \<and> (stack_top s = NULL) = (stack_size s = 0)"
      by simp
  qed
  from r sa st c u t b show ?thesis by blast
qed

theorem size_counts_frames_witness:
  "\<exists>\<sigma>' sa s ns.
     do_calls (Ptr 0)
       [Push (Ptr 11) (Ptr 1), Peek, Pop, Pop, Push NULL (Ptr 2), Push (Ptr 11) (Ptr 2),
        Push (Ptr 12) (Ptr 3), GetSize, IsEmpty, ToString, Map_call log_call, Clear]
       stack0 = Some (Inr \<sigma>') \<and>
     Ptr 0 = Ptr sa \<and> stacks \<sigma>' sa = Some s \<and> chain (frames \<sigma>') (stack_top s) ns \<and>
     unat (stack_size s) = length ns mod 2 ^ 32 \<and>
     (stack_top s = NULL) = (length ns = 0)"
proof -
  have "mallocs_fresh (Ptr 0)
       [Push (Ptr 11) (Ptr 1), Peek, Pop, Pop, Push NULL (Ptr 2), Push (Ptr 11) (Ptr 2),
        Push (Ptr 12) (Ptr 3), GetSize, IsEmpty, ToString, Map_call log_call, Clear]
       stack0"
    by (simp add: stack0_def fresh_stack_def dynstackPush_def dynstackFrameNew_def
        dynstackPop_def dynstackPeek_def dynstackGetSize_def dynstackIsEmpty_def
        split: option.splits sum.splits)
  moreover have "Ptr 0 \<noteq> NULL" by simp
  ultimately show ?thesis
    using size_counts_frames [OF new_stack0]
    by blast
qed

text \<open>
  Counterexample to claim C9 as stated, where the counter wraps: the stack reached from the new
  stack by 4294967296 successful pushes has 4294967296 frames linked from its top,
  which is frame 4294967295, and its \<^verbatim>\<open>size\<close> is 0.
\<close>

theorem size_zero_over_frames:
  "dynstackNew (Ptr 0) (Some log_call) (Some render) empty_memory = (Ptr 0, stack0) \<and>
   mallocs_fresh (Ptr 0) (push_calls (numbered 4294967296)) stack0 \<and>
   do_calls (Ptr 0) (push_calls (numbered 4294967296)) stack0 = Some (Inr (pushed 4294967296)) \<and>
   stacks (pushed 4294967296) 0 =
     Some (fresh_stack\<lparr>stack_top := Ptr 4294967295, stack_size := 0\<rparr>) \<and>
   chain (frames (pushed 4294967296)) (Ptr 4294967295) (rev (numbered 4294967296)) \<and>
   length (rev (numbered 4294967296)) = 4294967296"
proof (intro conjI)
  show "dynstackNew (Ptr 0) (Some log_call) (Some render) empty_memory = (Ptr 0, stack0)"
    by (rule new_stack0)
  show "mallocs_fresh (Ptr 0) (push_calls (numbered 4294967296)) stack0"
    by (rule fresh_push_calls)
  show "do_calls (Ptr 0) (push_calls (numbered 4294967296)) stack0 =
      Some (Inr (pushed 4294967296))"
    using pushed_run by (rule do_calls_push_calls)
  show "stacks (pushed 4294967296) 0 =
     Some (fresh_stack\<lparr>stack_top := Ptr 4294967295, stack_size := 0\<rparr>)"
    by (simp add: pushed_def)
  have "chain (frames (pushed 4294967296))
      (stack_top (fresh_stack\<lparr>stack_top := (case 4294967296 of 0 \<Rightarrow> NULL | Suc i \<Rightarrow> Ptr i),
        stack_size := of_nat 4294967296\<rparr>))
      (rev (numbered 4294967296))"
    using pushed_holds [of 4294967296] unfolding holds_def by (rule conjunct2 [THEN conjunct1])
  then show "chain (frames (pushed 4294967296)) (Ptr 4294967295) (rev (numbered 4294967296))"
    by simp
  show "length (rev (numbered 4294967296)) = 4294967296"
    by (simp only: length_rev length_numbered)
qed

subsection \<open>C10\<close>

text \<open>
  Claim C10. \<^verbatim>\<open>dynstackPush\<close> of the element \<^verbatim>\<open>NULL\<close> succeeds like any other: the
  stack then holds a frame with \<^verbatim>\<open>data = NULL\<close> above the old ones and its size is one
  more. The next \<^verbatim>\<open>dynstackPop\<close> returns \<^verbatim>\<open>NULL\<close>, which is also what
  \<^verbatim>\<open>dynstackPop\<close> returns on a stack without frames and on the \<^verbatim>\<open>NULL\<close> stack
  pointer.
\<close>

theorem push_NULL_element:
  assumes "holds \<sigma> sa s ns" and "frames \<sigma> a = None" and "holds \<tau> ta t []"
  shows "\<exists>\<sigma>1 s1 \<sigma>2 s2.
           dynstackPush (Ptr a) (Ptr sa) NULL \<sigma> = Inr (True, \<sigma>1) \<and>
           holds \<sigma>1 sa s1 ((a, NULL) # ns) \<and> stack_size s1 = stack_size s + 1 \<and>
           dynstackPop (Ptr sa) \<sigma>1 = Inr (NULL, \<sigma>2) \<and> holds \<sigma>2 sa s2 ns \<and>
           dynstackPop (Ptr ta) \<tau> = Inr (NULL, \<tau>) \<and>
           dynstackPop NULL \<sigma> = Inr (NULL, \<sigma>)"
proof -
  let ?s1 = "s\<lparr>stack_top := Ptr a, stack_size := stack_size s + 1\<rparr>"
  let ?\<sigma>1 = "\<sigma>\<lparr>frames := (frames \<sigma>)(a \<mapsto> \<lparr>frame_data = NULL, frame_next = stack_top s\<rparr>),
      stacks := (stacks \<sigma>)(sa \<mapsto> ?s1)\<rparr>"
  from assms(1) have "stacks \<sigma> sa = Some s" by (simp add: holds_def)
  then have push: "dynstackPush (Ptr a) (Ptr sa) NULL \<sigma> = Inr (True, ?\<sigma>1)"
    by (rule push_eq)
  from assms(1,2) have h1: "holds ?\<sigma>1 sa ?s1 ((a, NULL) # ns)"
    by (rule push_holds)
  note pop = pop_holds [OF h1]
  have "stack_size ?s1 = stack_size s + 1" by simp
  moreover from assms(3) have "dynstackPop (Ptr ta) \<tau> = Inr (NULL, \<tau>)"
    by (rule pop_empty)
  moreover have "dynstackPop NULL \<sigma> = Inr (NULL, \<sigma>)"
    by (simp add: dynstackPop_def)
  ultimately show ?thesis using push h1 pop by blast
qed

theorem push_NULL_element_witness:
  "\<exists>\<sigma>1 s1 \<sigma>2 s2.
     dynstackPush (Ptr 14) (Ptr 0) NULL stack3 = Inr (True, \<sigma>1) \<and>
     holds \<sigma>1 0 s1 [(14, NULL), (13, Ptr 3), (12, Ptr 2), (11, Ptr 1)] \<and>
     stack_size s1 = 3 + 1 \<and>
     dynstackPop (Ptr 0) \<sigma>1 = Inr (NULL, \<sigma>2) \<and>
     holds \<sigma>2 0 s2 [(13, Ptr 3), (12, Ptr 2), (11, Ptr 1)] \<and>
     dynstackPop (Ptr 0) stack0 = Inr (NULL, stack0) \<and>
     dynstackPop NULL stack3 = Inr (NULL, stack3)"
  using push_NULL_element [OF holds_stack3 fresh_stack3 holds_stack0]
  by simp

end
